theory Spec2Isabelle
  imports Complex_Main "HOL-Library.Log_Nat" "HOL-Library.AList"
begin

section \<open>Data model\<close>

text \<open>
  The notebook works on NumPy arrays and Torch tensors of floating-point numbers.  The
  embedding keeps their shape as nested lists and takes the entries to be rationals, so
  every arithmetic step below is exact.  A table (\<open>df.values\<close>, \<open>data\<close>) is a list of rows,
  a window is a list of \<open>lookback\<close> consecutive rows, and a rank-3 tensor is a list of
  matrices.  The two dictionaries \<open>test_x\<close>/\<open>test_y\<close> and the dictionary \<open>label_scalers\<close>
  are association lists in insertion order, which is the order Python iterates them in.
\<close>

type_synonym row = "rat list"
type_synonym matrix = "rat list list"
type_synonym tensor3 = "rat list list list"

datatype py_error =
    ValueError string
  | IndexError
  | KeyError string
  | RuntimeError string
  | AssertionError

subsection \<open>Python slices\<close>

text \<open>\<open>xs[a:b]\<close> for non-negative \<open>a\<close> and \<open>b\<close>.\<close>

definition slice :: "'a list \<Rightarrow> nat \<Rightarrow> nat \<Rightarrow> 'a list" where
  "slice xs a b = take (b - a) (drop a xs)"

text \<open>
  \<open>xs[:j]\<close> and \<open>xs[i:]\<close> for a signed bound: a negative bound counts from the end and is
  clamped at the start of the list, and \<open>-0\<close> is the integer \<open>0\<close>.
\<close>

definition slice_to :: "'a list \<Rightarrow> int \<Rightarrow> 'a list" where
  "slice_to xs j = (if j < 0 then take (nat (int (length xs) + j)) xs else take (nat j) xs)"

definition slice_from :: "'a list \<Rightarrow> int \<Rightarrow> 'a list" where
  "slice_from xs i = (if i < 0 then drop (nat (int (length xs) + i)) xs else drop (nat i) xs)"

section \<open>Windowing\<close>

text \<open>
  \<^verbatim>\<open>
  lookback = 90
  inputs = np.zeros((len(data)-lookback,lookback,df.shape[1]))
  labels = np.zeros(len(data)-lookback)
  for i in range(lookback, len(data)):
      inputs[i-lookback] = data[i-lookback:i]
      labels[i-lookback] = data[i,0]
  inputs = inputs.reshape(-1,lookback,df.shape[1])
  labels = labels.reshape(-1,1)
  \<close>
  \<open>np.zeros\<close> raises \<open>ValueError\<close> on a negative dimension.  The loop writes into the
  two zero arrays by index; \<open>data[i,0]\<close> raises \<open>IndexError\<close> on a table without columns.
  The final reshapes leave \<open>inputs\<close> as it is and turn every label into a row of one entry;
  \<open>reshape(-1, lookback, columns)\<close> raises \<open>ValueError\<close> when \<open>lookback * columns\<close> is zero,
  since the first dimension cannot be inferred then.
\<close>

definition lookback :: nat where
  "lookback = 90"

definition ncols :: "matrix \<Rightarrow> nat" where
  "ncols data = (case data of [] \<Rightarrow> 0 | r # _ \<Rightarrow> length r)"

text \<open>The shape of a matrix with at least one row.\<close>

definition shape2 :: "matrix \<Rightarrow> nat list" where
  "shape2 X = [length X, ncols X]"

definition np_zeros3 :: "int \<Rightarrow> nat \<Rightarrow> nat \<Rightarrow> py_error + tensor3" where
  "np_zeros3 n l f =
     (if n < 0 then Inl (ValueError ''negative dimensions are not allowed'')
      else Inr (replicate (nat n) (replicate l (replicate f 0))))"

definition np_zeros1 :: "int \<Rightarrow> py_error + rat list" where
  "np_zeros1 n =
     (if n < 0 then Inl (ValueError ''negative dimensions are not allowed'')
      else Inr (replicate (nat n) 0))"

fun window_loop :: "nat \<Rightarrow> matrix \<Rightarrow> nat list \<Rightarrow> tensor3 \<times> rat list \<Rightarrow> py_error + tensor3 \<times> rat list" where
  "window_loop L data [] acc = Inr acc"
| "window_loop L data (i # is) (inputs, labels) =
     (case data ! i of
        [] \<Rightarrow> Inl IndexError
      | v # _ \<Rightarrow> window_loop L data is (inputs[i - L := slice data (i - L) i], labels[i - L := v]))"

definition windower :: "nat \<Rightarrow> matrix \<Rightarrow> py_error + tensor3 \<times> matrix" where
  "windower L data =
     (case np_zeros3 (int (length data) - int L) L (ncols data) of
        Inl e \<Rightarrow> Inl e
      | Inr inputs0 \<Rightarrow>
     (case np_zeros1 (int (length data) - int L) of
        Inl e \<Rightarrow> Inl e
      | Inr labels0 \<Rightarrow>
     (case window_loop L data [L ..< length data] (inputs0, labels0) of
        Inl e \<Rightarrow> Inl e
      | Inr (inputs, labels) \<Rightarrow>
          if L * ncols data = 0 then Inl (ValueError ''cannot reshape array of size 0'')
          else Inr (inputs, map (\<lambda>v. [v]) labels))))"

section \<open>Train/test split\<close>

text \<open>
  \<^verbatim>\<open>test_portion = int(0.1*len(inputs))\<close>

  The product is a binary64 multiplication.  The literal \<open>0.1\<close> is the double
  \<open>3602879701896397 / 2^55\<close>, the length converts exactly, and the exact product
  \<open>a / 2^55\<close> is rounded to 53 significant bits, ties to even; \<open>int\<close> then drops the
  fraction.  \<open>round_binary64 a\<close> is the numerator of the rounded product over \<open>2^55\<close>.
\<close>

definition double_tenth :: nat where
  "double_tenth = 3602879701896397"

definition round_binary64 :: "nat \<Rightarrow> nat" where
  "round_binary64 a =
     (let b = floorlog 2 a in
      if b \<le> 53 then a
      else
        let k = b - 53;
            m = a div 2 ^ k;
            r = a mod 2 ^ k;
            h = 2 ^ (k - 1);
            m' = (if h < r \<or> (r = h \<and> odd m) then m + 1 else m)
        in m' * 2 ^ k)"

definition test_portion :: "nat \<Rightarrow> nat" where
  "test_portion n = round_binary64 (n * double_tenth) div 2 ^ 55"

section \<open>Min-max scaling\<close>

text \<open>
  Modelled from the spec: the scaler is the external library class \<open>MinMaxScaler\<close>, whose code
  is not part of the repository.  The spec describes it as the linear rescaling of each
  column's observed range to \<open>[0,1]\<close>; the definitions follow the library's own steps for the
  default feature range.  A fitted scaler holds one pair \<open>(scale_, min_)\<close> per feature
  column: \<open>scale_ = 1 / range\<close> with a zero range replaced by \<open>1\<close>, and
  \<open>min_ = 0 - data_min * scale_\<close>.  \<open>transform\<close> computes \<open>X * scale_ + min_\<close> and
  \<open>inverse_transform\<close> computes \<open>(X - min_) / scale_\<close>, both with the per-feature vectors
  broadcast along the rows.  Every entry point validates its array first and raises
  \<open>ValueError\<close> on an array without rows or without columns.
\<close>

record feature_scale =
  sc_scale :: rat
  sc_min :: rat

type_synonym MinMaxScaler = "feature_scale list"

definition column :: "nat \<Rightarrow> matrix \<Rightarrow> rat list" where
  "column j X = map (\<lambda>r. r ! j) X"

definition check_array :: "matrix \<Rightarrow> py_error + matrix" where
  "check_array X =
     (if X = [] then Inl (ValueError ''Found array with 0 sample(s)'')
      else if ncols X = 0 then Inl (ValueError ''Found array with 0 feature(s)'')
      else Inr X)"

definition handle_zeros_in_scale :: "rat \<Rightarrow> rat" where
  "handle_zeros_in_scale s = (if s = 0 then 1 else s)"

definition fit_column :: "rat list \<Rightarrow> feature_scale" where
  "fit_column col =
     (let data_min = Min (set col);
          data_max = Max (set col);
          data_range = data_max - data_min;
          scale = 1 / handle_zeros_in_scale data_range
      in \<lparr>sc_scale = scale, sc_min = 0 - data_min * scale\<rparr>)"

definition fit :: "matrix \<Rightarrow> py_error + MinMaxScaler" where
  "fit X =
     (case check_array X of
        Inl e \<Rightarrow> Inl e
      | Inr X' \<Rightarrow> Inr (map (\<lambda>j. fit_column (column j X')) [0 ..< ncols X']))"

text \<open>
  NumPy broadcasting of a per-feature vector against an array with \<open>k\<close> columns: the
  lengths agree, or the vector has one entry that is repeated.
\<close>

definition broadcast_features :: "MinMaxScaler \<Rightarrow> nat \<Rightarrow> py_error + MinMaxScaler" where
  "broadcast_features sc k =
     (if length sc = k then Inr sc
      else if length sc = 1 then Inr (replicate k (hd sc))
      else Inl (ValueError ''operands could not be broadcast together''))"

definition transform1 :: "feature_scale \<Rightarrow> rat \<Rightarrow> rat" where
  "transform1 p x = x * sc_scale p + sc_min p"

definition inverse_transform1 :: "feature_scale \<Rightarrow> rat \<Rightarrow> rat" where
  "inverse_transform1 p y = (y - sc_min p) / sc_scale p"

definition transform :: "MinMaxScaler \<Rightarrow> matrix \<Rightarrow> py_error + matrix" where
  "transform sc X =
     (case check_array X of
        Inl e \<Rightarrow> Inl e
      | Inr X' \<Rightarrow>
     (case broadcast_features sc (ncols X') of
        Inl e \<Rightarrow> Inl e
      | Inr ps \<Rightarrow> Inr (map (\<lambda>r. map2 transform1 ps r) X')))"

definition inverse_transform :: "MinMaxScaler \<Rightarrow> matrix \<Rightarrow> py_error + matrix" where
  "inverse_transform sc X =
     (case check_array X of
        Inl e \<Rightarrow> Inl e
      | Inr X' \<Rightarrow>
     (case broadcast_features sc (ncols X') of
        Inl e \<Rightarrow> Inl e
      | Inr ps \<Rightarrow> Inr (map (\<lambda>r. map2 inverse_transform1 ps r) X')))"

definition fit_transform :: "matrix \<Rightarrow> py_error + matrix" where
  "fit_transform X = (case fit X of Inl e \<Rightarrow> Inl e | Inr sc \<Rightarrow> transform sc X)"

section \<open>Preprocessing loop\<close>

text \<open>
  The state of the preprocessing cell.  Each directory entry arrives with the table
  \<open>df.values\<close> that the notebook builds for it: rows sorted by time, consumption in
  column 0 and the four calendar features after it.
  \<^verbatim>\<open>
  label_scalers = {}
  train_x = []
  test_x = {}
  test_y = {}
  for ii, file in enumerate(os.listdir(data_dir)):
      if file[-4:] != ".csv" or file == "pjm_hourly_est.csv":
          continue
      ...
      sc = MinMaxScaler()
      label_sc = MinMaxScaler()
      data = sc.fit_transform(df.values)
      label_sc.fit(df.iloc[:,0].values.reshape(-1,1))
      label_scalers[file] = label_sc
      ... (windowing)
      test_portion = int(0.1*len(inputs))
      if len(train_x) == 0:
          train_x = inputs[:-test_portion]
          train_y = labels[:-test_portion]
      else:
          train_x = np.concatenate((train_x,inputs[:-test_portion]))
          train_y = np.concatenate((train_y,labels[:-test_portion]))
      test_x[file] = (inputs[-test_portion:])
      test_y[file] = (labels[-test_portion:])
  \<close>
\<close>

record prep_state =
  label_scalers :: "(string \<times> MinMaxScaler) list"
  train_x :: tensor3
  train_y :: matrix
  test_x :: "(string \<times> tensor3) list"
  test_y :: "(string \<times> matrix) list"

definition init_state :: prep_state where
  "init_state = \<lparr>label_scalers = [], train_x = [], train_y = [], test_x = [], test_y = []\<rparr>"

definition skipped :: "string \<Rightarrow> bool" where
  "skipped file \<longleftrightarrow> slice_from file (- 4) \<noteq> ''.csv'' \<or> file = ''pjm_hourly_est.csv''"

text \<open>
  \<open>np.concatenate((a, b))\<close> along the first axis: the other dimensions must agree, also
  when \<open>b\<close> has no entry.  It is called on a non-empty \<open>a\<close> only, whose windows give its
  other dimensions; those of \<open>b\<close> are passed as \<open>dims\<close>.
\<close>

definition np_concatenate :: "tensor3 \<Rightarrow> tensor3 \<Rightarrow> nat list \<Rightarrow> py_error + tensor3" where
  "np_concatenate a b dims =
     (if a \<noteq> [] \<and> shape2 (hd a) \<noteq> dims
      then Inl (ValueError ''all the input array dimensions except for the concatenation axis must match exactly'')
      else Inr (a @ b))"

definition split_file ::
  "nat \<Rightarrow> nat \<Rightarrow> string \<Rightarrow> MinMaxScaler \<Rightarrow> tensor3 \<Rightarrow> matrix \<Rightarrow> prep_state \<Rightarrow> py_error + prep_state" where
  "split_file L F file label_sc inputs labels st =
     (let tp = int (test_portion (length inputs)) in
      case (if length (train_x st) = 0
            then Inr (slice_to inputs (- tp), slice_to labels (- tp))
            else case np_concatenate (train_x st) (slice_to inputs (- tp)) [L, F] of
                   Inl e \<Rightarrow> Inl e
                 | Inr tx \<Rightarrow> Inr (tx, train_y st @ slice_to labels (- tp))) of
        Inl e \<Rightarrow> Inl e
      | Inr (tx, ty) \<Rightarrow>
          Inr \<lparr>label_scalers = AList.update file label_sc (label_scalers st),
               train_x = tx,
               train_y = ty,
               test_x = AList.update file (slice_from inputs (- tp)) (test_x st),
               test_y = AList.update file (slice_from labels (- tp)) (test_y st)\<rparr>)"

definition process_file :: "nat \<Rightarrow> string \<Rightarrow> matrix \<Rightarrow> prep_state \<Rightarrow> py_error + prep_state" where
  "process_file L file values st =
     (case fit_transform values of
        Inl e \<Rightarrow> Inl e
      | Inr data \<Rightarrow>
     (case fit (map (\<lambda>v. [v]) (column 0 values)) of
        Inl e \<Rightarrow> Inl e
      | Inr label_sc \<Rightarrow>
     (case windower L data of
        Inl e \<Rightarrow> Inl e
      | Inr (inputs, labels) \<Rightarrow> split_file L (ncols data) file label_sc inputs labels st)))"

fun preprocess_loop :: "nat \<Rightarrow> (string \<times> matrix) list \<Rightarrow> prep_state \<Rightarrow> py_error + prep_state" where
  "preprocess_loop L [] st = Inr st"
| "preprocess_loop L ((file, values) # rest) st =
     (if skipped file then preprocess_loop L rest st
      else case process_file L file values st of
             Inl e \<Rightarrow> Inl e
           | Inr st' \<Rightarrow> preprocess_loop L rest st')"

definition preprocess :: "(string \<times> matrix) list \<Rightarrow> py_error + prep_state" where
  "preprocess files = preprocess_loop lookback files init_state"

text \<open>The directory entries that the loop does not skip, in the order of the listing.\<close>

definition used_files :: "(string \<times> matrix) list \<Rightarrow> (string \<times> matrix) list" where
  "used_files files = filter (\<lambda>(f, v). \<not> skipped f) files"

section \<open>Sequence models\<close>

text \<open>
  \<^verbatim>\<open>
  class GRUNet(nn.Module):
      def __init__(self, input_dim, hidden_dim, output_dim, n_layers, drop_prob=0.2):
          self.hidden_dim = hidden_dim
          self.n_layers = n_layers
          self.gru = nn.GRU(input_dim, hidden_dim, n_layers, batch_first=True, dropout=drop_prob)
          self.fc = nn.Linear(hidden_dim, output_dim)
          self.relu = nn.ReLU()
      def forward(self, x, h):
          out, h = self.gru(x, h)
          out = self.fc(self.relu(out[:,-1]))
          return out, h
      def init_hidden(self, batch_size):
          weight = next(self.parameters()).data
          hidden = weight.new(self.n_layers, batch_size, self.hidden_dim).zero_().to(device)
          return hidden
  \<close>
  \<open>LSTMNet\<close> is the same class over \<open>nn.LSTM\<close>, with a pair of tensors as hidden state.
  The recurrent layer is the library's and stays an uninterpreted field of the model: a
  function from a batch \<open>[batch, time, feature]\<close> and a hidden state to the per-step outputs
  \<open>[batch, time, hidden_dim]\<close> and the new hidden state, which may fail.  The linear layer
  holds \<open>output_dim\<close> weight rows of \<open>hidden_dim\<close> entries and \<open>output_dim\<close> biases, and
  maps every row \<open>x\<close> of its input to the row of the dot products of \<open>x\<close> with the weight
  rows, each plus its bias; an input row of another length than the weight rows raises
  \<open>RuntimeError\<close>.
\<close>

record Linear =
  weight :: matrix
  bias :: "rat list"

definition dot :: "rat list \<Rightarrow> rat list \<Rightarrow> rat" where
  "dot w x = sum_list (map2 (*) w x)"

definition Linear_forward :: "Linear \<Rightarrow> matrix \<Rightarrow> py_error + matrix" where
  "Linear_forward fc X =
     (if \<exists>x \<in> set X. \<exists>w \<in> set (weight fc). length x \<noteq> length w
      then Inl (RuntimeError ''mat1 and mat2 shapes cannot be multiplied'')
      else Inr (map (\<lambda>x. map2 (\<lambda>w b. dot w x + b) (weight fc) (bias fc)) X))"

definition relu :: "matrix \<Rightarrow> matrix" where
  "relu X = map (map (max 0)) X"

text \<open>\<open>out[:,-1]\<close>: the last time step of every sequence of the batch.\<close>

definition last_step :: "tensor3 \<Rightarrow> py_error + matrix" where
  "last_step out = (if \<exists>seq \<in> set out. seq = [] then Inl IndexError else Inr (map last out))"

record GRUNet =
  gru_hidden_dim :: nat
  gru_n_layers :: nat
  gru :: "tensor3 \<Rightarrow> tensor3 \<Rightarrow> py_error + tensor3 \<times> tensor3"
  gru_fc :: Linear

record LSTMNet =
  lstm_hidden_dim :: nat
  lstm_n_layers :: nat
  lstm :: "tensor3 \<Rightarrow> tensor3 \<times> tensor3 \<Rightarrow> py_error + tensor3 \<times> (tensor3 \<times> tensor3)"
  lstm_fc :: Linear

definition GRUNet_forward :: "GRUNet \<Rightarrow> tensor3 \<Rightarrow> tensor3 \<Rightarrow> py_error + matrix \<times> tensor3" where
  "GRUNet_forward net x h =
     (case gru net x h of
        Inl e \<Rightarrow> Inl e
      | Inr (out, h') \<Rightarrow>
     (case last_step out of
        Inl e \<Rightarrow> Inl e
      | Inr final \<Rightarrow>
     (case Linear_forward (gru_fc net) (relu final) of
        Inl e \<Rightarrow> Inl e
      | Inr out' \<Rightarrow> Inr (out', h'))))"

definition GRUNet_init_hidden :: "GRUNet \<Rightarrow> nat \<Rightarrow> tensor3" where
  "GRUNet_init_hidden net batch_size =
     replicate (gru_n_layers net) (replicate batch_size (replicate (gru_hidden_dim net) 0))"

definition LSTMNet_forward ::
  "LSTMNet \<Rightarrow> tensor3 \<Rightarrow> tensor3 \<times> tensor3 \<Rightarrow> py_error + matrix \<times> (tensor3 \<times> tensor3)" where
  "LSTMNet_forward net x h =
     (case lstm net x h of
        Inl e \<Rightarrow> Inl e
      | Inr (out, h') \<Rightarrow>
     (case last_step out of
        Inl e \<Rightarrow> Inl e
      | Inr final \<Rightarrow>
     (case Linear_forward (lstm_fc net) (relu final) of
        Inl e \<Rightarrow> Inl e
      | Inr out' \<Rightarrow> Inr (out', h'))))"

definition LSTMNet_init_hidden :: "LSTMNet \<Rightarrow> nat \<Rightarrow> tensor3 \<times> tensor3" where
  "LSTMNet_init_hidden net batch_size =
     (replicate (lstm_n_layers net) (replicate batch_size (replicate (lstm_hidden_dim net) 0)),
      replicate (lstm_n_layers net) (replicate batch_size (replicate (lstm_hidden_dim net) 0)))"

text \<open>
  Shapes.  \<open>zeros_of_shape l b h\<close> holds of the all-zero tensor of shape \<open>[l, b, h]\<close>.
  \<open>Linear_shape\<close> is the shape that \<open>nn.Linear(in_features, out_features)\<close> gives its
  parameters, and \<open>rnn_output_shape\<close> is the shape \<open>[batch, time, hidden_dim]\<close>, with at
  least one time step, that the library's recurrent layer gives its output for a batch \<open>x\<close>.
\<close>

definition zeros_of_shape :: "nat \<Rightarrow> nat \<Rightarrow> nat \<Rightarrow> tensor3 \<Rightarrow> bool" where
  "zeros_of_shape l b h t \<longleftrightarrow>
     length t = l \<and> (\<forall>M \<in> set t. length M = b \<and> (\<forall>r \<in> set M. length r = h \<and> (\<forall>v \<in> set r. v = 0)))"

definition Linear_shape :: "Linear \<Rightarrow> nat \<Rightarrow> nat \<Rightarrow> bool" where
  "Linear_shape fc in_features out_features \<longleftrightarrow>
     length (weight fc) = out_features \<and> length (bias fc) = out_features
     \<and> (\<forall>w \<in> set (weight fc). length w = in_features)"

definition rnn_output_shape :: "tensor3 \<Rightarrow> tensor3 \<Rightarrow> nat \<Rightarrow> bool" where
  "rnn_output_shape x out hidden_dim \<longleftrightarrow>
     length out = length x \<and> (\<forall>seq \<in> set out. seq \<noteq> [] \<and> (\<forall>v \<in> set seq. length v = hidden_dim))"

section \<open>Evaluation\<close>

text \<open>
  \<^verbatim>\<open>
  def evaluate(model, test_x, test_y, label_scalers):
      model.eval()
      outputs = []
      targets = []
      for i in test_x.keys():
          inp = torch.from_numpy(np.array(test_x[i]))
          labs = torch.from_numpy(np.array(test_y[i]))
          h = model.init_hidden(inp.shape[0])
          out, h = model(inp.to(device).float(), h)
          outputs.append(label_scalers[i].inverse_transform(out.cpu().detach().numpy()).reshape(-1))
          targets.append(label_scalers[i].inverse_transform(labs.numpy()).reshape(-1))
      sMAPE = 0
      for i in range(len(outputs)):
          sMAPE += np.mean(abs(outputs[i]-targets[i])/(targets[i]+outputs[i])/2)/len(outputs)
      return outputs, targets, sMAPE
  \<close>
  The model is either of the two classes.  A missing dictionary key raises \<open>KeyError\<close>.
\<close>

datatype model = GRU GRUNet | LSTM LSTMNet

fun model_predict :: "model \<Rightarrow> tensor3 \<Rightarrow> py_error + matrix" where
  "model_predict (GRU net) inp =
     (case GRUNet_forward net inp (GRUNet_init_hidden net (length inp)) of
        Inl e \<Rightarrow> Inl e
      | Inr (out, h) \<Rightarrow> Inr out)"
| "model_predict (LSTM net) inp =
     (case LSTMNet_forward net inp (LSTMNet_init_hidden net (length inp)) of
        Inl e \<Rightarrow> Inl e
      | Inr (out, h) \<Rightarrow> Inr out)"

definition getitem :: "(string \<times> 'v) list \<Rightarrow> string \<Rightarrow> py_error + 'v" where
  "getitem d k = (case map_of d k of None \<Rightarrow> Inl (KeyError k) | Some v \<Rightarrow> Inr v)"

definition evaluate_file ::
  "model \<Rightarrow> (string \<times> tensor3) list \<Rightarrow> (string \<times> matrix) list \<Rightarrow> (string \<times> MinMaxScaler) list
   \<Rightarrow> string \<Rightarrow> py_error + rat list \<times> rat list" where
  "evaluate_file m tx ty scalers i =
     (case getitem tx i of Inl e \<Rightarrow> Inl e | Inr inp \<Rightarrow>
     (case getitem ty i of Inl e \<Rightarrow> Inl e | Inr labs \<Rightarrow>
     (case model_predict m inp of Inl e \<Rightarrow> Inl e | Inr out \<Rightarrow>
     (case getitem scalers i of Inl e \<Rightarrow> Inl e | Inr sc \<Rightarrow>
     (case inverse_transform sc out of Inl e \<Rightarrow> Inl e | Inr out' \<Rightarrow>
     (case getitem scalers i of Inl e \<Rightarrow> Inl e | Inr sc' \<Rightarrow>
     (case inverse_transform sc' labs of Inl e \<Rightarrow> Inl e | Inr labs' \<Rightarrow>
        Inr (concat out', concat labs'))))))))"

fun evaluate_loop ::
  "model \<Rightarrow> (string \<times> tensor3) list \<Rightarrow> (string \<times> matrix) list \<Rightarrow> (string \<times> MinMaxScaler) list
   \<Rightarrow> string list \<Rightarrow> rat list list \<times> rat list list \<Rightarrow> py_error + rat list list \<times> rat list list" where
  "evaluate_loop m tx ty scalers [] acc = Inr acc"
| "evaluate_loop m tx ty scalers (i # keys) (outputs, targets) =
     (case evaluate_file m tx ty scalers i of
        Inl e \<Rightarrow> Inl e
      | Inr (out, tgt) \<Rightarrow> evaluate_loop m tx ty scalers keys (outputs @ [out], targets @ [tgt]))"

text \<open>
  The error term works on two one-dimensional arrays elementwise, with NumPy broadcasting:
  equal lengths, or one array of length one.  Floating-point division by zero does not
  raise: the quotient is infinite or not a number, and so is every sum and mean it enters.
  Such a value is \<open>None\<close> here; \<open>np.mean\<close> of an empty array is not a number either.
\<close>

definition np_broadcast2 :: "(rat \<Rightarrow> rat \<Rightarrow> 'a) \<Rightarrow> rat list \<Rightarrow> rat list \<Rightarrow> py_error + 'a list" where
  "np_broadcast2 f xs ys =
     (if length xs = length ys then Inr (map2 f xs ys)
      else if length xs = 1 then Inr (map (f (hd xs)) ys)
      else if length ys = 1 then Inr (map (\<lambda>x. f x (hd ys)) xs)
      else Inl (ValueError ''operands could not be broadcast together''))"

definition smape_term :: "rat \<Rightarrow> rat \<Rightarrow> rat option" where
  "smape_term out tgt = (if tgt + out = 0 then None else Some (\<bar>out - tgt\<bar> / (tgt + out) / 2))"

definition np_mean :: "rat option list \<Rightarrow> rat option" where
  "np_mean vs =
     (if vs = [] \<or> None \<in> set vs then None
      else Some (sum_list (map the vs) / of_nat (length vs)))"

definition float_add :: "rat option \<Rightarrow> rat option \<Rightarrow> rat option" where
  "float_add a b = (case (a, b) of (Some x, Some y) \<Rightarrow> Some (x + y) | _ \<Rightarrow> None)"

definition float_div_nat :: "rat option \<Rightarrow> nat \<Rightarrow> rat option" where
  "float_div_nat a n = (case a of Some x \<Rightarrow> Some (x / of_nat n) | None \<Rightarrow> None)"

fun smape_loop :: "rat list list \<Rightarrow> rat list list \<Rightarrow> nat list \<Rightarrow> rat option \<Rightarrow> py_error + rat option" where
  "smape_loop outputs targets [] sMAPE = Inr sMAPE"
| "smape_loop outputs targets (i # is) sMAPE =
     (case np_broadcast2 smape_term (outputs ! i) (targets ! i) of
        Inl e \<Rightarrow> Inl e
      | Inr terms \<Rightarrow>
          smape_loop outputs targets is
            (float_add sMAPE (float_div_nat (np_mean terms) (length outputs))))"

definition evaluate ::
  "model \<Rightarrow> (string \<times> tensor3) list \<Rightarrow> (string \<times> matrix) list \<Rightarrow> (string \<times> MinMaxScaler) list
   \<Rightarrow> py_error + rat list list \<times> rat list list \<times> rat option" where
  "evaluate m tx ty scalers =
     (case evaluate_loop m tx ty scalers (map fst tx) ([], []) of
        Inl e \<Rightarrow> Inl e
      | Inr (outputs, targets) \<Rightarrow>
     (case smape_loop outputs targets [0 ..< length outputs] (Some 0) of
        Inl e \<Rightarrow> Inl e
      | Inr sMAPE \<Rightarrow> Inr (outputs, targets, sMAPE)))"

section \<open>Batch iterator and training epoch\<close>

text \<open>
  Modelled from the spec: the batch iterator is the external library's \<open>TensorDataset\<close> and
  \<open>DataLoader\<close>, whose code is not part of the repository; the spec says that it shuffles
  and batches the merged training windows.  The definitions follow the library's batch
  sampler: it walks the shuffled indices, collects them into a batch, yields the batch when
  it holds \<open>batch_size\<close> indices, and at the end yields the incomplete batch only when
  \<open>drop_last\<close> is off.  The order drawn by the shuffle for one pass is the argument
  \<open>sampler\<close>, a permutation of the dataset's indices.  A dataset pairs the window and the
  label at every index; a batch stacks the windows and the labels at the batch's indices.
\<close>

definition TensorDataset :: "tensor3 \<Rightarrow> matrix \<Rightarrow> py_error + (matrix \<times> rat list) list" where
  "TensorDataset xs ys = (if length xs \<noteq> length ys then Inl AssertionError else Inr (zip xs ys))"

fun batch_sampler :: "nat \<Rightarrow> bool \<Rightarrow> nat list \<Rightarrow> nat list \<Rightarrow> nat list list" where
  "batch_sampler bs drop_last [] batch = (if 0 < length batch \<and> \<not> drop_last then [batch] else [])"
| "batch_sampler bs drop_last (idx # sampler) batch =
     (if length (batch @ [idx]) = bs
      then (batch @ [idx]) # batch_sampler bs drop_last sampler []
      else batch_sampler bs drop_last sampler (batch @ [idx]))"

definition collate :: "(matrix \<times> rat list) list \<Rightarrow> nat list \<Rightarrow> tensor3 \<times> matrix" where
  "collate dataset batch = (map (\<lambda>i. fst (dataset ! i)) batch, map (\<lambda>i. snd (dataset ! i)) batch)"

definition DataLoader ::
  "(matrix \<times> rat list) list \<Rightarrow> nat list \<Rightarrow> nat \<Rightarrow> bool \<Rightarrow> py_error + (tensor3 \<times> matrix) list" where
  "DataLoader dataset sampler bs drop_last =
     (if bs = 0 then Inl (ValueError ''batch_size should be a positive integer value'')
      else Inr (map (collate dataset) (batch_sampler bs drop_last sampler [])))"

text \<open>
  The notebook's loader:
  \<^verbatim>\<open>
  batch_size = 1024
  train_data = TensorDataset(torch.from_numpy(train_x), torch.from_numpy(train_y))
  train_loader = DataLoader(train_data, shuffle=True, batch_size=batch_size, drop_last=True)
  \<close>
\<close>

definition batch_size :: nat where
  "batch_size = 1024"

definition train_loader :: "(matrix \<times> rat list) list \<Rightarrow> nat list \<Rightarrow> py_error + (tensor3 \<times> matrix) list" where
  "train_loader train_data sampler = DataLoader train_data sampler batch_size True"

text \<open>
  One epoch of \<open>train\<close>:
  \<^verbatim>\<open>
  h = model.init_hidden(batch_size)
  avg_loss = 0.
  counter = 0
  for x, label in train_loader:
      counter += 1
      ... (forward pass, loss, backward pass, optimizer step)
      avg_loss += loss.item()
  \<close>
  The body of the loop is the library's automatic differentiation and optimizer; it is the
  parameter \<open>step\<close>, from the model, the hidden state and a batch to the updated model, the
  new hidden state and the loss, and it may fail.
\<close>

fun train_batches ::
  "('m \<Rightarrow> 'h \<Rightarrow> tensor3 \<times> matrix \<Rightarrow> py_error + 'm \<times> 'h \<times> rat) \<Rightarrow> (tensor3 \<times> matrix) list
   \<Rightarrow> 'm \<times> 'h \<times> rat \<times> nat \<Rightarrow> py_error + 'm \<times> 'h \<times> rat \<times> nat" where
  "train_batches step [] st = Inr st"
| "train_batches step (b # bs) (m, h, avg_loss, counter) =
     (case step m h b of
        Inl e \<Rightarrow> Inl e
      | Inr (m', h', loss) \<Rightarrow> train_batches step bs (m', h', avg_loss + loss, counter + 1))"

definition train_epoch ::
  "('m \<Rightarrow> 'h \<Rightarrow> tensor3 \<times> matrix \<Rightarrow> py_error + 'm \<times> 'h \<times> rat) \<Rightarrow> (nat \<Rightarrow> 'h)
   \<Rightarrow> (matrix \<times> rat list) list \<Rightarrow> nat list \<Rightarrow> 'm \<Rightarrow> py_error + 'm \<times> 'h \<times> rat \<times> nat" where
  "train_epoch step init_hidden train_data sampler m =
     (case train_loader train_data sampler of
        Inl e \<Rightarrow> Inl e
      | Inr batches \<Rightarrow> train_batches step batches (m, init_hidden batch_size, 0, 0))"

section \<open>Properties of the windower\<close>

lemma window_loop_fold:
  assumes "\<forall>i \<in> set is. data ! i \<noteq> []"
  shows "window_loop L data is (inputs, labels) =
         Inr (fold (\<lambda>i xs. xs[i - L := slice data (i - L) i]) is inputs,
              fold (\<lambda>i ys. ys[i - L := hd (data ! i)]) is labels)"
  using assms
proof (induction "is" arbitrary: inputs labels)
  case Nil
  show ?case by simp
next
  case (Cons i "is")
  then obtain v r where "data ! i = v # r" by (cases "data ! i") auto
  with Cons show ?case by simp
qed

lemma fold_update_upt:
  assumes "m \<le> length xs"
  shows "fold (\<lambda>i xs. xs[i - L := f i]) [L ..< L + m] xs = map f [L ..< L + m] @ drop m xs"
  using assms
proof (induction m)
  case 0
  show ?case by simp
next
  case (Suc m)
  then have m: "m < length xs" by simp
  have "fold (\<lambda>i xs. xs[i - L := f i]) [L ..< L + Suc m] xs
        = (map f [L ..< L + m] @ drop m xs)[m := f (L + m)]"
    using Suc by simp
  also have "\<dots> = map f [L ..< L + m] @ (drop m xs)[0 := f (L + m)]"
    by (simp add: list_update_append)
  also have "drop m xs = xs ! m # drop (Suc m) xs"
    using m by (simp add: Cons_nth_drop_Suc)
  finally show ?case by simp
qed

lemma upt_shift: "[L ..< L + n] = map (\<lambda>i. i + L) [0 ..< n]"
  by (simp add: map_add_upt add.commute)

lemma ncols_nonzero: "data \<noteq> [] \<Longrightarrow> \<forall>r \<in> set data. r \<noteq> [] \<Longrightarrow> ncols data \<noteq> 0"
  by (cases data) (simp_all add: ncols_def)

lemma windower_ok:
  assumes "L \<le> length data" and "\<forall>r \<in> set data. r \<noteq> []" and "0 < L"
  shows "windower L data =
         Inr (map (\<lambda>i. slice data i (i + L)) [0 ..< length data - L],
              map (\<lambda>i. [data ! (i + L) ! 0]) [0 ..< length data - L])"
proof -
  define n where "n = length data - L"
  have T: "length data = L + n" using assms(1) by (simp add: n_def)
  have nonempty: "\<forall>i \<in> set [L ..< L + n]. data ! i \<noteq> []"
    using assms(2) T by simp
  have "data \<noteq> []" using assms(1,3) by auto
  then have cols: "ncols data \<noteq> 0" using assms(2) by (rule ncols_nonzero)
  have "windower L data =
        Inr (map (\<lambda>i. slice data (i - L) i) [L ..< L + n],
             map (\<lambda>v. [v]) (map (\<lambda>i. hd (data ! i)) [L ..< L + n]))"
    using cols assms(3)
    by (simp add: windower_def np_zeros3_def np_zeros1_def T window_loop_fold [OF nonempty]
        fold_update_upt)
  also have "map (\<lambda>i. slice data (i - L) i) [L ..< L + n] = map (\<lambda>i. slice data i (i + L)) [0 ..< n]"
    by (simp only: upt_shift map_map o_def add_diff_cancel_right')
  also have "map (\<lambda>v. [v]) (map (\<lambda>i. hd (data ! i)) [L ..< L + n]) = map (\<lambda>i. [data ! (i + L) ! 0]) [0 ..< n]"
    using assms(2) T by (simp add: upt_shift o_def hd_conv_nth)
  finally show ?thesis by (simp add: n_def)
qed

lemma windower_short:
  assumes "length data < L"
  shows "windower L data = Inl (ValueError ''negative dimensions are not allowed'')"
  using assms by (simp add: windower_def np_zeros3_def)

text \<open>
  C3.  For a table of \<open>T\<close> scaled rows with at least one column and a lookback \<open>L\<close> with
  \<open>0 < L < T\<close>, the windower succeeds with exactly \<open>T - L\<close> windows and \<open>T - L\<close> labels;
  window \<open>i\<close> is the slice of rows \<open>[i, i + L)\<close>, and label \<open>i\<close> is the one-entry row
  holding column 0 of row \<open>i + L\<close>.
\<close>

theorem windower_windows_and_labels:
  assumes "L < length data" and "\<forall>r \<in> set data. r \<noteq> []" and "0 < L"
  shows "\<exists>inputs labels. windower L data = Inr (inputs, labels)
           \<and> length inputs = length data - L \<and> length labels = length data - L
           \<and> inputs = map (\<lambda>i. slice data i (i + L)) [0 ..< length data - L]
           \<and> labels = map (\<lambda>i. [data ! (i + L) ! 0]) [0 ..< length data - L]"
  using assms by (simp add: windower_ok)

theorem windower_windows_and_labels_witness:
  "(2::nat) < length [[1, 10], [2, 20], [3, 30], [4, 40], [5, 50 :: rat]]
   \<and> windower 2 [[1, 10], [2, 20], [3, 30], [4, 40], [5, 50]]
       = Inr ([[[1, 10], [2, 20]], [[2, 20], [3, 30]], [[3, 30], [4, 40]]], [[3], [4], [5]])"
  using windower_windows_and_labels [of 2 "[[1, 10], [2, 20], [3, 30], [4, 40], [5, 50]]"]
  by (simp add: slice_def upt_conv_Cons)

section \<open>Properties of the split\<close>

text \<open>
  The double nearest to one tenth: \<open>2 * double_tenth\<close> is a significand of 53 bits, and
  \<open>double_tenth / 2^55\<close> is within half a unit in the last place, \<open>2^-57\<close>, of \<open>1/10\<close>.
\<close>

lemma double_tenth_nearest:
  "2 ^ 52 \<le> 2 * double_tenth" "2 * double_tenth < 2 ^ 53"
  "\<bar>rat_of_nat double_tenth / 2 ^ 55 - 1 / 10\<bar> < 1 / 2 ^ 57"
  by (simp_all add: double_tenth_def)

text \<open>
  For every array length below \<open>2^52\<close> the rounded product \<open>0.1 * n\<close> lies in
  \<open>[n div 10, n div 10 + 1)\<close>, so the truncation is the integer quotient.
\<close>

lemma round_binary64_exact: "a < 2 ^ 53 \<Longrightarrow> round_binary64 a = a"
  by (simp add: round_binary64_def Let_def floorlog_le_iff)

lemma round_binary64_bounds:
  assumes "2 ^ 53 \<le> a"
  obtains k where "1 \<le> k" "2 ^ (k + 52) \<le> a" "a < 2 ^ (k + 53)"
    "(a div 2 ^ k) * 2 ^ k \<le> round_binary64 a" "2 * round_binary64 a \<le> 2 * a + 2 ^ k"
proof -
  define b where "b = floorlog 2 a"
  define k where "k = b - 53"
  from assms have pos: "0 < a" 
    by (metis less_le_trans zero_less_numeral zero_less_power)
  from floorlog_bounds [OF pos, of 2] have lo: "2 ^ (b - 1) \<le> a" and hi: "a < 2 ^ b"
    by (simp_all add: b_def)
  from assms hi have "(2::nat) ^ 53 < 2 ^ b" by linarith
  then have b53: "53 < b" by (simp only: power_strict_increasing_iff one_less_numeral_iff semiring_norm)
  then have k1: "1 \<le> k" and bk: "b = k + 53" "b - 1 = k + 52" by (simp_all add: k_def)
  define m where "m = a div 2 ^ k"
  define r where "r = a mod 2 ^ k"
  have a_eq: "a = m * 2 ^ k + r" by (simp only: m_def r_def div_mult_mod_eq)
  have h2: "2 * (2::nat) ^ (k - 1) = 2 ^ k"
    using k1 by (metis One_nat_def Suc_le_D diff_Suc_1 power_Suc)
  have R: "round_binary64 a = (if 2 ^ (k - 1) < r \<or> (r = 2 ^ (k - 1) \<and> odd m) then m + 1 else m) * 2 ^ k"
    using b53 by (simp add: round_binary64_def Let_def b_def [symmetric] k_def [symmetric] m_def r_def)
  have lower: "(a div 2 ^ k) * 2 ^ k \<le> round_binary64 a"
    by (simp add: R m_def [symmetric])
  have upper: "2 * round_binary64 a \<le> 2 * a + 2 ^ k"
  proof (cases "2 ^ (k - 1) < r \<or> (r = 2 ^ (k - 1) \<and> odd m)")
    case True
    then have "2 ^ (k - 1) \<le> r" by auto
    with h2 have "2 ^ k \<le> 2 * r" by linarith
    moreover from True have "round_binary64 a = m * 2 ^ k + 2 ^ k" by (simp add: R)
    ultimately show ?thesis using a_eq by linarith
  next
    case False
    then have "round_binary64 a = m * 2 ^ k" by (simp add: R)
    then show ?thesis using a_eq by linarith
  qed
  from lo have lo': "2 ^ (k + 52) \<le> a" by (simp only: bk(2))
  from hi have hi': "a < 2 ^ (k + 53)" by (simp only: bk(1))
  show thesis
    by (rule that [OF k1 lo' hi' lower upper])
qed

lemma test_portion_eq:
  assumes "n < 2 ^ 52"
  shows "test_portion n = n div 10"
proof (cases "n * double_tenth < 2 ^ 53")
  case True
  then have "n < 3" by (simp add: double_tenth_def)
  with True show ?thesis
    by (simp add: test_portion_def round_binary64_exact div_eq_0_iff double_tenth_def)
next
  case False
  define a where "a = n * double_tenth"
  define q where "q = n div 10"
  from False have "2 ^ 53 \<le> a" by (simp add: a_def)
  then obtain k where k: "1 \<le> k" "2 ^ (k + 52) \<le> a" "a < 2 ^ (k + 53)"
    "(a div 2 ^ k) * 2 ^ k \<le> round_binary64 a" "2 * round_binary64 a \<le> 2 * a + 2 ^ k"
    by (rule round_binary64_bounds)
  have n10: "10 * q \<le> n" "n \<le> 10 * q + 9" by (simp_all add: q_def)
  have a10: "10 * a = n * 2 ^ 55 + 2 * n" by (simp add: a_def double_tenth_def)
  have a_lt: "a \<le> n * 2 ^ 52" by (simp add: a_def double_tenth_def)
  from assms have "n * 2 ^ 52 < 2 ^ 52 * 2 ^ 52" by simp
  with a_lt k(2) have "(2::nat) ^ (k + 52) < 2 ^ 104" by simp
  then have "k + 52 < 104" by (simp only: power_strict_increasing_iff one_less_numeral_iff semiring_norm)
  then have k55: "k \<le> 55" by simp
  have "2 ^ k * (2::nat) ^ 52 \<le> n * 2 ^ 52" using k(2) a_lt by (simp add: power_add)
  then have kn: "2 ^ k \<le> n" by simp
  have "q * 2 ^ 55 \<le> a" using n10 a10 by simp
  moreover have "(2::nat) ^ 55 = 2 ^ (55 - k) * 2 ^ k"
    using k55 by (simp add: power_add [symmetric])
  ultimately have "(q * 2 ^ (55 - k)) * 2 ^ k \<le> a" by (simp add: mult.assoc)
  then have "q * 2 ^ (55 - k) \<le> a div 2 ^ k" by (simp add: less_eq_div_iff_mult_less_eq)
  then have "(q * 2 ^ (55 - k)) * 2 ^ k \<le> (a div 2 ^ k) * 2 ^ k" by (rule mult_le_mono1)
  with \<open>(2::nat) ^ 55 = 2 ^ (55 - k) * 2 ^ k\<close> have "q * 2 ^ 55 \<le> (a div 2 ^ k) * 2 ^ k"
    by (simp add: mult.assoc)
  with k(4) have lower: "q * 2 ^ 55 \<le> round_binary64 a" by linarith
  have "20 * round_binary64 a \<le> 20 * a + 10 * 2 ^ k" using k(5) by linarith
  also have "\<dots> \<le> (2 * n * 2 ^ 55 + 4 * n) + 10 * n" using a10 kn by linarith
  also have "\<dots> < 20 * (q + 1) * 2 ^ 55" using n10 assms by simp
  finally have upper: "round_binary64 a < (q + 1) * 2 ^ 55" by simp
  from lower upper have "round_binary64 a div 2 ^ 55 = q"
    by (intro div_nat_eqI) (simp_all add: mult.commute)
  then show ?thesis by (simp add: test_portion_def a_def q_def)
qed

section \<open>Properties of the preprocessing of one file\<close>

lemma slice_to_neg: "slice_to xs (- int k) = (if k = 0 then [] else take (length xs - k) xs)"
  by (simp add: slice_to_def nat_diff_distrib')

lemma slice_from_neg: "slice_from xs (- int k) = (if k = 0 then xs else drop (length xs - k) xs)"
  by (simp add: slice_from_def nat_diff_distrib')

lemma window_loop_length:
  "window_loop L data is (inputs, labels) = Inr (inputs', labels')
   \<Longrightarrow> length inputs' = length inputs \<and> length labels' = length labels"
proof (induction "is" arbitrary: inputs labels)
  case Nil
  then show ?case by simp
next
  case (Cons i "is")
  then show ?case by (cases "data ! i") (auto split: sum.splits)
qed

lemma windower_length:
  assumes "windower L data = Inr (inputs, labels)"
  shows "length inputs = length data - L" and "length labels = length data - L"
  using assms
  by (auto simp: windower_def np_zeros3_def np_zeros1_def nat_diff_distrib'
      split: if_splits sum.splits prod.splits dest!: window_loop_length)

lemma fit_label_column:
  assumes "values \<noteq> []"
  shows "fit (map (\<lambda>v. [v]) (column 0 values)) = Inr [fit_column (column 0 values)]"
proof -
  obtain r rs where v: "values = r # rs" using assms by (cases "values") auto
  have c: "column 0 (map (\<lambda>v. [v]) (column 0 values)) = column 0 values"
    by (simp add: column_def o_def)
  show ?thesis
    unfolding fit_def check_array_def
    by (simp add: v ncols_def column_def o_def)
qed

lemma fit_transform_nonempty: "fit_transform values = Inr data \<Longrightarrow> values \<noteq> []"
  by (auto simp: fit_transform_def fit_def check_array_def split: if_splits)

lemma process_file_split:
  assumes "fit_transform values = Inr data" and "windower L data = Inr (inputs, labels)"
  shows "process_file L file values st
         = split_file L (ncols data) file [fit_column (column 0 values)] inputs labels st"
  using assms fit_transform_nonempty [OF assms(1)]
  by (simp add: process_file_def fit_label_column)

lemma fit_transform_length: "fit_transform values = Inr data \<Longrightarrow> length data = length values"
  by (auto simp: fit_transform_def fit_def transform_def check_array_def broadcast_features_def
      split: if_splits sum.splits)

lemma fit_transform_error:
  "fit_transform values = Inl e \<Longrightarrow> \<exists>msg. e = ValueError msg"
  by (auto simp: fit_transform_def fit_def transform_def check_array_def broadcast_features_def
      split: if_splits sum.splits)

lemma windower_no_windows:
  assumes "length data = L" and "0 < L" and "ncols data \<noteq> 0"
  shows "windower L data = Inr ([], [])"
  using assms by (simp add: windower_def np_zeros3_def np_zeros1_def)

lemma fit_transform_ncols: "fit_transform values = Inr data \<Longrightarrow> ncols data = ncols values"
  by (cases "values")
     (auto simp: fit_transform_def fit_def transform_def check_array_def broadcast_features_def
       ncols_def split: if_splits)

lemma split_file_ok:
  assumes "train_x st = [] \<or> shape2 (hd (train_x st)) = [L, F]"
    and "length (train_y st) = length (train_x st)"
  shows "split_file L F file sc inputs labels st
         = Inr \<lparr>label_scalers = AList.update file sc (label_scalers st),
                train_x = train_x st @ slice_to inputs (- int (test_portion (length inputs))),
                train_y = train_y st @ slice_to labels (- int (test_portion (length inputs))),
                test_x = AList.update file (slice_from inputs (- int (test_portion (length inputs))))
                           (test_x st),
                test_y = AList.update file (slice_from labels (- int (test_portion (length inputs))))
                           (test_y st)\<rparr>"
  using assms by (auto simp: split_file_def np_concatenate_def Let_def)

lemma split_file_dicts:
  assumes "split_file L F file sc inputs labels st = Inr st'"
  shows "label_scalers st' = AList.update file sc (label_scalers st)
       \<and> test_x st' = AList.update file (slice_from inputs (- int (test_portion (length inputs)))) (test_x st)
       \<and> test_y st' = AList.update file (slice_from labels (- int (test_portion (length inputs)))) (test_y st)"
  using assms
  by (auto simp: split_file_def np_concatenate_def Let_def split: if_splits sum.splits)

lemma slice_zero: "slice_to xs 0 = []" "slice_from xs 0 = xs"
  by (simp_all add: slice_to_def slice_from_def)

lemma fit_transform_single_column:
  assumes "col \<noteq> []"
  shows "fit_transform (map (\<lambda>v. [v]) col) = Inr (map (\<lambda>v. [transform1 (fit_column col) v]) col)"
proof -
  obtain c cs where col: "col = c # cs" using assms by (cases col) auto
  have n: "ncols (map (\<lambda>v. [v]) col) = 1" by (simp add: col ncols_def)
  have ne: "map (\<lambda>v. [v]) col \<noteq> []" using assms by simp
  have c0: "column 0 (map (\<lambda>v. [v]) col) = col" by (simp add: column_def o_def)
  have f: "fit (map (\<lambda>v. [v]) col) = Inr [fit_column col]"
    using assms by (simp add: fit_def check_array_def n c0)
  show ?thesis
    using assms
    by (simp add: fit_transform_def f transform_def check_array_def n broadcast_features_def o_def)
qed

lemma example_fit_column: "fit_column [0, 11, 22, 33, 44, 55, 66, 77, 88, 99, 110, 121] = \<lparr>sc_scale = 1/121, sc_min = 0\<rparr>"
  by (simp add: fit_column_def handle_zeros_in_scale_def Let_def)

lemma example_fit_transform:
  "fit_transform [[0], [11], [22], [33], [44], [55], [66], [77], [88], [99], [110], [121]]
   = Inr [[0], [1/11], [2/11], [3/11], [4/11], [5/11], [6/11], [7/11], [8/11], [9/11], [10/11], [1]]"
proof -
  have "[[0], [11], [22], [33], [44], [55], [66], [77], [88], [99], [110], [121 :: rat]]
        = map (\<lambda>v. [v]) [0, 11, 22, 33, 44, 55, 66, 77, 88, 99, 110, 121]"
    by simp
  then have "fit_transform [[0], [11], [22], [33], [44], [55], [66], [77], [88], [99], [110], [121]]
        = fit_transform (map (\<lambda>v. [v]) [0, 11, 22, 33, 44, 55, 66, 77, 88, 99, 110, 121])"
    by (rule arg_cong)
  also have "\<dots> = Inr (map (\<lambda>v. [transform1 (fit_column [0, 11, 22, 33, 44, 55, 66, 77, 88, 99, 110, 121]) v])
                        [0, 11, 22, 33, 44, 55, 66, 77, 88, 99, 110, 121])"
    by (rule fit_transform_single_column) simp
  finally show ?thesis
    by (simp add: example_fit_column transform1_def)
qed

lemma example_windower:
  "windower 1 [[0], [1/11], [2/11], [3/11], [4/11], [5/11], [6/11], [7/11], [8/11], [9/11], [10/11], [1]]
   = Inr ([[[0]], [[1/11]], [[2/11]], [[3/11]], [[4/11]], [[5/11]], [[6/11]], [[7/11]], [[8/11]],
           [[9/11]], [[10/11]]],
          [[1/11], [2/11], [3/11], [4/11], [5/11], [6/11], [7/11], [8/11], [9/11], [10/11], [1]])"
  by (subst windower_ok) (simp_all add: slice_def upt_conv_Cons)

lemma example_fit_transform_small:
  "fit_transform [[10, 0], [20, 1], [30, 2], [40, 3], [50, 4]]
   = Inr [[0, 0], [1/4, 1/4], [1/2, 1/2], [3/4, 3/4], [1, 1]]"
  by (simp add: fit_transform_def fit_def check_array_def ncols_def column_def fit_column_def
      handle_zeros_in_scale_def transform_def broadcast_features_def transform1_def Let_def upt_conv_Cons)

lemma example_windower_small:
  "windower 2 [[0, 0], [1/4, 1/4], [1/2, 1/2], [3/4, 3/4], [1, 1]]
   = Inr ([[[0, 0], [1/4, 1/4]], [[1/4, 1/4], [1/2, 1/2]], [[1/2, 1/2], [3/4, 3/4]]],
          [[1/2], [3/4], [1]])"
  by (subst windower_ok) (simp_all add: slice_def upt_conv_Cons)

lemma map_upt_const: "(\<And>i. i < m \<Longrightarrow> f i = c) \<Longrightarrow> map f [0 ..< m] = replicate m c"
  by (rule nth_equalityI) simp_all

lemma fit_column_constant: "0 < n \<Longrightarrow> fit_column (replicate n c) = \<lparr>sc_scale = 1, sc_min = - c\<rparr>"
  by (simp add: fit_column_def handle_zeros_in_scale_def Let_def)

lemma fit_transform_constant:
  assumes "0 < n" and "r \<noteq> []"
  shows "fit_transform (replicate n r) = Inr (replicate n (replicate (length r) 0))"
proof -
  have n: "ncols (replicate n r) = length r"
    using assms(1) by (cases n) (simp_all add: ncols_def)
  have c: "column j (replicate n r) = replicate n (r ! j)" for j
    by (simp add: column_def)
  have f: "fit (replicate n r) = Inr (map (\<lambda>j. \<lparr>sc_scale = 1, sc_min = - (r ! j)\<rparr>) [0 ..< length r])"
    using assms by (simp add: fit_def check_array_def n c fit_column_constant)
  have row: "map2 transform1 (map (\<lambda>j. \<lparr>sc_scale = 1, sc_min = - (r ! j)\<rparr>) [0 ..< length r]) r
             = replicate (length r) 0"
    by (rule nth_equalityI) (simp_all add: transform1_def)
  show ?thesis
    using assms
    by (simp add: fit_transform_def f transform_def check_array_def n broadcast_features_def row)
qed

lemma windower_constant:
  assumes "L \<le> n" and "z \<noteq> []" and "0 < L"
  shows "windower L (replicate n z) = Inr (replicate (n - L) (replicate L z), replicate (n - L) [z ! 0])"
proof -
  have "windower L (replicate n z) =
         Inr (map (\<lambda>i. slice (replicate n z) i (i + L)) [0 ..< n - L],
              map (\<lambda>i. [replicate n z ! (i + L) ! 0]) [0 ..< n - L])"
    using assms windower_ok [of L "replicate n z"] by simp
  moreover have "map (\<lambda>i. slice (replicate n z) i (i + L)) [0 ..< n - L] = replicate (n - L) (replicate L z)"
    by (rule map_upt_const) (simp add: slice_def min_def)
  moreover have "map (\<lambda>i. [replicate n z ! (i + L) ! 0]) [0 ..< n - L] = replicate (n - L) [z ! 0]"
    by (rule map_upt_const) simp
  ultimately show ?thesis by simp
qed

lemma not_skipped_AEP: "\<not> skipped ''AEP_hourly.csv''"
  by (simp add: skipped_def slice_from_def)

text \<open>
  C2 (as amended).  The claim puts \<open>ceil(0.1 * N)\<close> windows into the test pool; the code
  computes \<open>int(0.1 * N)\<close>, the floor.  What holds: for a file whose windower output has
  \<open>N \<ge> 10\<close> windows (and fewer than \<open>2^52\<close>), the test portion is \<open>N div 10\<close>, the file's test pool holds exactly
  the last \<open>N div 10\<close> windows and labels, and the preceding \<open>N - N div 10\<close> windows and
  labels are appended to the training pool.  The training pool is one that the loop can
  have built from files of the same number of columns: as many labels as windows, and
  windows of the shape of this file's, which \<open>np.concatenate\<close> requires.
\<close>

theorem split_takes_last_tenth:
  assumes "fit_transform values = Inr data" and "windower L data = Inr (inputs, labels)"
    and "N = length inputs" and "10 \<le> N" and "N < 2 ^ 52"
    and "length (train_y st) = length (train_x st)"
    and "train_x st = [] \<or> shape2 (hd (train_x st)) = [L, ncols data]"
  shows "\<exists>st'. process_file L file values st = Inr st'
           \<and> test_portion N = N div 10
           \<and> map_of (test_x st') file = Some (drop (N - N div 10) inputs)
           \<and> map_of (test_y st') file = Some (drop (N - N div 10) labels)
           \<and> length (drop (N - N div 10) inputs) = N div 10
           \<and> train_x st' = train_x st @ take (N - N div 10) inputs
           \<and> train_y st' = train_y st @ take (N - N div 10) labels"
proof -
  have tp: "test_portion N = N div 10" using assms(5) by (rule test_portion_eq)
  have pos: "N div 10 \<noteq> 0" using assms(4) by simp
  have len: "length labels = N"
    using windower_length [OF assms(2)] assms(3) by simp
  have le: "N div 10 \<le> N" by simp
  show ?thesis
    unfolding process_file_split [OF assms(1,2)] split_file_ok [OF assms(7,6)]
    using tp pos len le assms(3)
    by (simp add: slice_to_neg slice_from_neg slice_zero update_conv')
qed

theorem split_takes_last_tenth_witness:
  "\<exists>st'. process_file 1 ''a.csv''
           [[0], [11], [22], [33], [44], [55], [66], [77], [88], [99], [110], [121]] init_state = Inr st'
     \<and> test_portion 11 = 1
     \<and> map_of (test_x st') ''a.csv'' = Some [[[10/11]]]
     \<and> map_of (test_y st') ''a.csv'' = Some [[1]]
     \<and> train_x st' = [[[0]], [[1/11]], [[2/11]], [[3/11]], [[4/11]], [[5/11]], [[6/11]], [[7/11]],
                       [[8/11]], [[9/11]]]
     \<and> train_y st' = [[1/11], [2/11], [3/11], [4/11], [5/11], [6/11], [7/11], [8/11], [9/11], [10/11]]"
  using split_takes_last_tenth [OF example_fit_transform example_windower, of 11 init_state "''a.csv''"]
  by (simp add: init_state_def)

text \<open>
  One file of 101 constant rows under the notebook's lookback of 90 has 11 windows; the
  test pool receives one of them, and \<open>ceil(0.1 * 11) = 2\<close>.
\<close>

theorem split_ceiling_counterexample:
  "preprocess [(''AEP_hourly.csv'', replicate 101 [5, 0, 0, 1, 1])]
     = Inr \<lparr>label_scalers = [(''AEP_hourly.csv'', [\<lparr>sc_scale = 1, sc_min = - 5\<rparr>])],
            train_x = replicate 10 (replicate 90 [0, 0, 0, 0, 0]),
            train_y = replicate 10 [0],
            test_x = [(''AEP_hourly.csv'', replicate 1 (replicate 90 [0, 0, 0, 0, 0]))],
            test_y = [(''AEP_hourly.csv'', replicate 1 [0])]\<rparr>
   \<and> (1::nat) \<noteq> nat \<lceil>(1 / 10 :: rat) * (101 - 90)\<rceil>"
proof -
  have ft: "fit_transform (replicate 101 [5, 0, 0, 1, 1]) = Inr (replicate 101 [0, 0, 0, 0, 0])"
    using fit_transform_constant [of 101 "[5, 0, 0, 1, 1]"] by (simp add: numeral_eq_Suc)
  have w: "windower 90 (replicate 101 [0, 0, 0, 0, 0])
           = Inr (replicate 11 (replicate 90 [0, 0, 0, 0, 0]), replicate 11 [0])"
    using windower_constant [of 90 101 "[0, 0, 0, 0, 0]"] by simp
  have tp: "test_portion 11 = 1" by (simp add: test_portion_eq)
  have fc: "fit_column (column 0 (replicate 101 [5, 0, 0, 1, 1])) = \<lparr>sc_scale = 1, sc_min = - 5\<rparr>"
    by (simp add: column_def fit_column_constant)
  have pool: "train_x init_state = [] \<or> shape2 (hd (train_x init_state)) = [90, F]" for F
    by (simp add: init_state_def)
  have inv: "length (train_y init_state) = length (train_x init_state)"
    by (simp add: init_state_def)
  have "process_file 90 ''AEP_hourly.csv'' (replicate 101 [5, 0, 0, 1, 1]) init_state
        = Inr \<lparr>label_scalers = [(''AEP_hourly.csv'', [\<lparr>sc_scale = 1, sc_min = - 5\<rparr>])],
            train_x = replicate 10 (replicate 90 [0, 0, 0, 0, 0]),
            train_y = replicate 10 [0],
            test_x = [(''AEP_hourly.csv'', replicate 1 (replicate 90 [0, 0, 0, 0, 0]))],
            test_y = [(''AEP_hourly.csv'', replicate 1 [0])]\<rparr>"
    unfolding process_file_split [OF ft w] split_file_ok [OF pool inv]
    by (simp add: fc tp slice_to_def slice_from_def init_state_def)
  then have "preprocess [(''AEP_hourly.csv'', replicate 101 [5, 0, 0, 1, 1])]
        = Inr \<lparr>label_scalers = [(''AEP_hourly.csv'', [\<lparr>sc_scale = 1, sc_min = - 5\<rparr>])],
            train_x = replicate 10 (replicate 90 [0, 0, 0, 0, 0]),
            train_y = replicate 10 [0],
            test_x = [(''AEP_hourly.csv'', replicate 1 (replicate 90 [0, 0, 0, 0, 0]))],
            test_y = [(''AEP_hourly.csv'', replicate 1 [0])]\<rparr>"
    by (simp add: preprocess_def lookback_def not_skipped_AEP)
  moreover have "\<lceil>(1 / 10 :: rat) * (101 - 90)\<rceil> = 2"
    by (simp add: ceiling_eq_iff)
  ultimately show ?thesis by simp
qed

text \<open>
  C9.  For a file whose windower output has \<open>N\<close> windows with \<open>0 < N \<le> 9\<close>, the computed
  test portion is \<open>0\<close>, and the slices \<open>[-0:]\<close> and \<open>[:-0]\<close> put all \<open>N\<close> windows and labels
  into the file's test pool and none into the training pool (a pool as in C2: as many
  labels as windows, and windows of the shape of this file's).
\<close>

theorem small_file_goes_to_test_pool:
  assumes "fit_transform values = Inr data" and "windower L data = Inr (inputs, labels)"
    and "N = length inputs" and "0 < N" and "N \<le> 9"
    and "length (train_y st) = length (train_x st)"
    and "train_x st = [] \<or> shape2 (hd (train_x st)) = [L, ncols data]"
  shows "\<exists>st'. process_file L file values st = Inr st'
           \<and> test_portion N = 0
           \<and> map_of (test_x st') file = Some inputs
           \<and> map_of (test_y st') file = Some labels
           \<and> train_x st' = train_x st
           \<and> train_y st' = train_y st"
proof -
  have "N < 2 ^ 52" using assms(5) by simp
  then have "test_portion N = N div 10" by (rule test_portion_eq)
  with assms(5) have tp: "test_portion N = 0" by simp
  show ?thesis
    unfolding process_file_split [OF assms(1,2)] split_file_ok [OF assms(7,6)]
    using tp assms(3)
    by (simp add: slice_to_neg slice_from_neg slice_zero update_conv')
qed

theorem small_file_goes_to_test_pool_witness:
  "\<exists>st'. process_file 2 ''a.csv'' [[10, 0], [20, 1], [30, 2], [40, 3], [50, 4]] init_state = Inr st'
     \<and> test_portion 3 = 0
     \<and> map_of (test_x st') ''a.csv''
         = Some [[[0, 0], [1/4, 1/4]], [[1/4, 1/4], [1/2, 1/2]], [[1/2, 1/2], [3/4, 3/4]]]
     \<and> map_of (test_y st') ''a.csv'' = Some [[1/2], [3/4], [1]]
     \<and> train_x st' = []
     \<and> train_y st' = []"
  using small_file_goes_to_test_pool [OF example_fit_transform_small example_windower_small,
      of 3 init_state "''a.csv''"]
  by (simp add: init_state_def)

text \<open>
  C8 (as amended).  The notebook has no check of its own on the number of rows.  A file
  with fewer rows than the lookback fails with a \<open>ValueError\<close> raised by the library (by the
  scaler on a table without rows or columns, otherwise by the allocation of an array with
  a negative dimension), which ends the preprocessing.  A file with exactly \<open>lookback\<close> rows,
  whose window count is zero, is not rejected: it stores empty test arrays under its name
  and leaves the training pool as it was (a pool as in C2).
\<close>

theorem short_file_outcome:
  assumes "length values \<le> L" and "length (train_y st) = length (train_x st)"
    and "train_x st = [] \<or> shape2 (hd (train_x st)) = [L, ncols values]"
  shows "if length values < L \<or> values = [] \<or> ncols values = 0
         then \<exists>msg. process_file L file values st = Inl (ValueError msg)
         else process_file L file values st
                = Inr \<lparr>label_scalers = AList.update file [fit_column (column 0 values)] (label_scalers st),
                       train_x = train_x st,
                       train_y = train_y st,
                       test_x = AList.update file [] (test_x st),
                       test_y = AList.update file [] (test_y st)\<rparr>"
proof (cases "length values < L \<or> values = [] \<or> ncols values = 0")
  case True
  have "\<exists>msg. process_file L file values st = Inl (ValueError msg)"
  proof (cases "fit_transform values")
    case (Inl e)
    then show ?thesis
      using fit_transform_error [OF Inl] by (auto simp: process_file_def)
  next
    case (Inr data)
    then have ok: "values \<noteq> []" "ncols values \<noteq> 0"
      by (auto simp: fit_transform_def fit_def check_array_def split: if_splits)
    with True have "length values < L" by simp
    then have "length data < L" using Inr by (simp add: fit_transform_length)
    then have "windower L data = Inl (ValueError ''negative dimensions are not allowed'')"
      by (rule windower_short)
    then show ?thesis
      using Inr ok by (simp add: process_file_def fit_label_column)
  qed
  with True show ?thesis by simp
next
  case False
  with assms(1) have eq: "length values = L" "values \<noteq> []" "ncols values \<noteq> 0" by simp_all
  then obtain data where data: "fit_transform values = Inr data"
    by (auto simp: fit_transform_def fit_def transform_def check_array_def broadcast_features_def)
  have cols: "ncols data = ncols values" using data by (rule fit_transform_ncols)
  have "length data = L" using data eq by (simp add: fit_transform_length)
  moreover have "0 < L" using eq by auto
  ultimately have w: "windower L data = Inr ([], [])"
    using eq(3) cols by (intro windower_no_windows) simp_all
  have tp: "test_portion 0 = 0" by (simp add: test_portion_eq)
  have pool: "train_x st = [] \<or> shape2 (hd (train_x st)) = [L, ncols data]"
    using assms(3) cols by simp
  have "process_file L file values st
        = Inr \<lparr>label_scalers = AList.update file [fit_column (column 0 values)] (label_scalers st),
               train_x = train_x st,
               train_y = train_y st,
               test_x = AList.update file [] (test_x st),
               test_y = AList.update file [] (test_y st)\<rparr>"
    unfolding process_file_split [OF data w] split_file_ok [OF pool assms(2)]
    by (simp add: tp slice_zero)
  with False show ?thesis by simp
qed

theorem short_file_outcome_witness:
  "\<exists>msg. process_file 3 ''a.csv'' [[10, 0], [20, 1]] init_state = Inl (ValueError msg)"
  using short_file_outcome [of "[[10, 0], [20, 1]]" 3 init_state "''a.csv''"]
  by (simp add: init_state_def ncols_def)

text \<open>
  One file of exactly 90 rows under the notebook's lookback of 90: the preprocessing
  succeeds, with empty window and label arrays in the test pool.
\<close>

theorem short_file_counterexample:
  "preprocess [(''AEP_hourly.csv'', replicate 90 [5, 0, 0, 1, 1])]
     = Inr \<lparr>label_scalers = [(''AEP_hourly.csv'', [\<lparr>sc_scale = 1, sc_min = - 5\<rparr>])],
            train_x = [], train_y = [],
            test_x = [(''AEP_hourly.csv'', [])],
            test_y = [(''AEP_hourly.csv'', [])]\<rparr>"
proof -
  have ft: "fit_transform (replicate 90 [5, 0, 0, 1, 1]) = Inr (replicate 90 [0, 0, 0, 0, 0])"
    using fit_transform_constant [of 90 "[5, 0, 0, 1, 1]"] by (simp add: numeral_eq_Suc)
  have w: "windower 90 (replicate 90 [0, 0, 0, 0, 0]) = Inr ([], [])"
    using windower_constant [of 90 90 "[0, 0, 0, 0, 0]"] by simp
  have tp: "test_portion 0 = 0" by (simp add: test_portion_eq)
  have fc: "fit_column (column 0 (replicate 90 [5, 0, 0, 1, 1])) = \<lparr>sc_scale = 1, sc_min = - 5\<rparr>"
    by (simp add: column_def fit_column_constant)
  have pool: "train_x init_state = [] \<or> shape2 (hd (train_x init_state)) = [90, F]" for F
    by (simp add: init_state_def)
  have inv: "length (train_y init_state) = length (train_x init_state)"
    by (simp add: init_state_def)
  have "process_file 90 ''AEP_hourly.csv'' (replicate 90 [5, 0, 0, 1, 1]) init_state
        = Inr \<lparr>label_scalers = [(''AEP_hourly.csv'', [\<lparr>sc_scale = 1, sc_min = - 5\<rparr>])],
            train_x = [], train_y = [],
            test_x = [(''AEP_hourly.csv'', [])],
            test_y = [(''AEP_hourly.csv'', [])]\<rparr>"
    unfolding process_file_split [OF ft w] split_file_ok [OF pool inv]
    by (simp add: fc tp slice_zero init_state_def)
  then show ?thesis
    by (simp add: preprocess_def lookback_def not_skipped_AEP)
qed

section \<open>Properties of the batch iterator\<close>

lemma batch_sampler_drop_last:
  assumes "0 < bs" and "length batch < bs"
  shows "length (batch_sampler bs True sampler batch) = (length batch + length sampler) div bs
       \<and> (\<forall>b \<in> set (batch_sampler bs True sampler batch). length b = bs)
       \<and> concat (batch_sampler bs True sampler batch)
           = take ((length batch + length sampler) div bs * bs) (batch @ sampler)"
  using assms
proof (induction sampler arbitrary: batch)
  case Nil
  then show ?case by simp
next
  case (Cons idx sampler)
  show ?case
  proof (cases "length (batch @ [idx]) = bs")
    case True
    have "length batch + length (idx # sampler) = bs + length sampler"
      using True by simp
    then have d: "(length batch + length (idx # sampler)) div bs = Suc (length sampler div bs)"
      using Cons.prems(1) by (simp only: div_add_self1)
    have ih: "length (batch_sampler bs True sampler []) = length sampler div bs
       \<and> (\<forall>b \<in> set (batch_sampler bs True sampler []). length b = bs)
       \<and> concat (batch_sampler bs True sampler [])
           = take (length sampler div bs * bs) sampler"
      using Cons.IH [of "[]"] Cons.prems(1) by simp
    have step: "batch_sampler bs True (idx # sampler) batch
          = (batch @ [idx]) # batch_sampler bs True sampler []"
      using True by simp
    have "Suc (length sampler div bs) * bs = length (batch @ [idx]) + length sampler div bs * bs"
      using True by simp
    then have "take (Suc (length sampler div bs) * bs) ((batch @ [idx]) @ sampler)
          = (batch @ [idx]) @ take (length sampler div bs * bs) sampler"
      by (simp only: take_append) simp
    then have "take (Suc (length sampler div bs) * bs) (batch @ idx # sampler)
          = (batch @ [idx]) @ take (length sampler div bs * bs) sampler"
      by simp
    with True ih show ?thesis
      unfolding step d by simp
  next
    case False
    with Cons.prems have lt: "length (batch @ [idx]) < bs" by simp
    from False have step: "batch_sampler bs True (idx # sampler) batch
          = batch_sampler bs True sampler (batch @ [idx])"
      by simp
    show ?thesis
      unfolding step using Cons.IH [OF Cons.prems(1) lt] by simp
  qed
qed

lemma train_batches_counter:
  "train_batches step bs (m, h, l, c) = Inr (m', h', l', c') \<Longrightarrow> c' = c + length bs"
proof (induction bs arbitrary: m h l c)
  case Nil
  then show ?case by simp
next
  case (Cons b bs)
  from Cons.prems obtain m1 h1 loss where
    "train_batches step bs (m1, h1, l + loss, c + 1) = Inr (m', h', l', c')"
    by (auto split: sum.splits)
  then have "c' = (c + 1) + length bs" by (rule Cons.IH)
  then show ?case by simp
qed

text \<open>
  C10.  With \<open>drop_last\<close> on and a batch size of 1024, one pass of the loader over a
  training pool of \<open>N\<close> windows yields exactly \<open>N div 1024\<close> batches, each of exactly 1024
  windows and 1024 labels; they hold the windows at the first \<open>(N div 1024) * 1024\<close>
  positions of the shuffled order, so the \<open>N mod 1024\<close> windows at its end are in no batch.
  The epoch loop of the trainer runs over exactly these batches, with the hidden state
  initialised for 1024 sequences, and counts \<open>N div 1024\<close> of them when it finishes.
\<close>

theorem train_loader_full_batches:
  assumes "distinct sampler" and "set sampler = {0 ..< length train_data}"
    and "N = length train_data"
  shows "\<exists>batches. train_loader train_data sampler = Inr batches
           \<and> length batches = N div 1024
           \<and> (\<forall>(x, label) \<in> set batches. length x = 1024 \<and> length label = 1024)
           \<and> concat (map fst batches) = map (\<lambda>i. fst (train_data ! i)) (take (N div 1024 * 1024) sampler)
           \<and> concat (map snd batches) = map (\<lambda>i. snd (train_data ! i)) (take (N div 1024 * 1024) sampler)
           \<and> length (drop (N div 1024 * 1024) sampler) = N mod 1024
           \<and> train_epoch step init_hidden train_data sampler m
               = train_batches step batches (m, init_hidden 1024, 0, 0)
           \<and> (case train_epoch step init_hidden train_data sampler m of
                 Inl e \<Rightarrow> True
               | Inr (m', h', avg_loss, counter) \<Rightarrow> counter = N div 1024)"
proof -
  define bsl where "bsl = batch_sampler 1024 True sampler []"
  define batches where "batches = map (collate train_data) bsl"
  have len: "length sampler = N"
    using assms distinct_card [of sampler] by simp
  have bs: "length bsl = N div 1024" "\<forall>b \<in> set bsl. length b = 1024"
    "concat bsl = take (N div 1024 * 1024) sampler"
    using batch_sampler_drop_last [of 1024 "[]" sampler] by (simp_all add: bsl_def len)
  have tl: "train_loader train_data sampler = Inr batches"
    by (simp add: train_loader_def DataLoader_def batch_size_def batches_def bsl_def)
  have l: "length batches = N div 1024" by (simp add: batches_def bs(1))
  have full: "\<forall>(x, label) \<in> set batches. length x = 1024 \<and> length label = 1024"
    using bs(2) by (auto simp: batches_def collate_def)
  have cx: "concat (map fst batches) = map (\<lambda>i. fst (train_data ! i)) (take (N div 1024 * 1024) sampler)"
    by (simp add: batches_def collate_def o_def map_concat bs(3) [symmetric])
  have cy: "concat (map snd batches) = map (\<lambda>i. snd (train_data ! i)) (take (N div 1024 * 1024) sampler)"
    by (simp add: batches_def collate_def o_def map_concat bs(3) [symmetric])
  have rest: "length (drop (N div 1024 * 1024) sampler) = N mod 1024"
    by (simp add: len minus_div_mult_eq_mod)
  have te: "train_epoch step init_hidden train_data sampler m
               = train_batches step batches (m, init_hidden 1024, 0, 0)"
    by (simp add: train_epoch_def tl batch_size_def)
  have cnt: "(case train_epoch step init_hidden train_data sampler m of
                 Inl e \<Rightarrow> True
               | Inr (m', h', avg_loss, counter) \<Rightarrow> counter = N div 1024)"
    unfolding te using l
    by (auto split: sum.splits dest: train_batches_counter)
  from tl l full cx cy rest te cnt show ?thesis by blast
qed

theorem train_loader_full_batches_witness:
  "\<exists>batches. train_loader (replicate 1025 ([[0]], [0])) [0 ..< 1025] = Inr batches
     \<and> length batches = 1
     \<and> length (drop 1024 [0 ..< 1025]) = 1"
proof -
  have d: "distinct [0 ..< 1025]" by simp
  have s: "set [0 ..< 1025] = {0 ..< length (replicate 1025 (([[0]], [0]) :: matrix \<times> rat list))}"
    by simp
  have n: "(1025::nat) = length (replicate 1025 (([[0]], [0]) :: matrix \<times> rat list))" by simp
  from train_loader_full_batches [OF d s n, of "\<lambda>m h b. Inl IndexError" "\<lambda>n. ()" "()"]
  obtain batches where
    "train_loader (replicate 1025 ([[0]], [0])) [0 ..< 1025] = Inr batches"
    "length batches = 1025 div 1024"
    "length (drop (1025 div 1024 * 1024) [0 ..< 1025]) = 1025 mod 1024"
    by (elim exE conjE)
  then show ?thesis by simp
qed

section \<open>Properties of the scaler\<close>

text \<open>
  C4.  For a label scaler fit on a file's consumption column whose minimum and maximum
  differ, and a value \<open>v\<close> of that column, \<open>transform\<close> followed by \<open>inverse_transform\<close>
  returns \<open>v\<close> exactly (the entries are rationals).
\<close>

theorem label_scaler_round_trip:
  assumes "fit (map (\<lambda>v. [v]) col) = Inr label_sc"
    and "v \<in> set col" and "Min (set col) \<noteq> Max (set col)"
  shows "\<exists>y. transform label_sc [[v]] = Inr [[y]] \<and> inverse_transform label_sc [[y]] = Inr [[v]]"
proof -
  from assms(2) have ne: "col \<noteq> []" by auto
  have "column 0 (map (\<lambda>v. [v]) col) = col" by (simp add: column_def o_def)
  moreover have "ncols (map (\<lambda>v. [v]) col) = 1" using ne by (cases col) (simp_all add: ncols_def)
  ultimately have "fit (map (\<lambda>v. [v]) col) = Inr [fit_column col]"
    using ne by (simp add: fit_def check_array_def)
  with assms(1) have sc: "label_sc = [fit_column col]" by simp
  have "sc_scale (fit_column col) \<noteq> 0"
    using assms(3) by (simp add: fit_column_def Let_def handle_zeros_in_scale_def)
  then have rt: "inverse_transform1 (fit_column col) (transform1 (fit_column col) v) = v"
    by (simp add: inverse_transform1_def transform1_def)
  have t: "transform label_sc [[v]] = Inr [[transform1 (fit_column col) v]]"
    by (simp add: sc transform_def check_array_def ncols_def broadcast_features_def)
  have i: "inverse_transform label_sc [[transform1 (fit_column col) v]] = Inr [[v]]"
    by (simp add: sc inverse_transform_def check_array_def ncols_def broadcast_features_def rt)
  from t i show ?thesis by blast
qed

theorem label_scaler_round_trip_witness:
  "transform [\<lparr>sc_scale = 1 / 40, sc_min = - (1 / 4)\<rparr>] [[30]] = Inr [[1 / 2]]
   \<and> inverse_transform [\<lparr>sc_scale = 1 / 40, sc_min = - (1 / 4)\<rparr>] [[1 / 2]] = Inr [[30]]"
proof -
  have f: "fit (map (\<lambda>v. [v]) [10, 20, 30, 40, 50]) = Inr [\<lparr>sc_scale = 1 / 40, sc_min = - (1 / 4)\<rparr>]"
    by (simp add: fit_def check_array_def ncols_def column_def fit_column_def Let_def
        handle_zeros_in_scale_def)
  have t: "transform [\<lparr>sc_scale = 1 / 40, sc_min = - (1 / 4)\<rparr>] [[30]] = Inr [[1 / 2]]"
    by (simp add: transform_def check_array_def ncols_def broadcast_features_def transform1_def)
  from label_scaler_round_trip [OF f, of 30] obtain y where
    a: "transform [\<lparr>sc_scale = 1 / 40, sc_min = - (1 / 4)\<rparr>] [[30]] = Inr [[y]]" and
    b: "inverse_transform [\<lparr>sc_scale = 1 / 40, sc_min = - (1 / 4)\<rparr>] [[y]] = Inr [[30]]"
    by auto
  from a t have y: "y = 1 / 2" by simp
  from t b [unfolded y] show ?thesis by (rule conjI)
qed

text \<open>
  The labels that the evaluation inverts are column 0 of the table scaled by the scaler
  of all columns; the label scaler of the same file returns the original consumption.
\<close>

lemma fit_column_scale_nonzero: "sc_scale (fit_column col) \<noteq> 0"
  by (simp add: fit_column_def Let_def handle_zeros_in_scale_def)

lemma inverse_transform1_transform1: "inverse_transform1 (fit_column col) (transform1 (fit_column col) v) = v"
  using fit_column_scale_nonzero [of col] by (simp add: inverse_transform1_def transform1_def)

lemma scaled_label_inverts:
  assumes "fit_transform values = Inr data" and "i < length values" and "values ! i \<noteq> []"
  shows "inverse_transform [fit_column (column 0 values)] [[data ! i ! 0]] = Inr [[values ! i ! 0]]"
proof -
  define ps where "ps = map (\<lambda>j. fit_column (column j values)) [0 ..< ncols values]"
  from assms(1) have cols: "ncols values \<noteq> 0" and data: "data = map (\<lambda>r. map2 transform1 ps r) values"
    by (auto simp: fit_transform_def fit_def transform_def check_array_def broadcast_features_def
        ps_def split: if_splits)
  have ps0: "ps \<noteq> []" "ps ! 0 = fit_column (column 0 values)"
    using cols by (simp_all add: ps_def)
  have "data ! i = map2 transform1 ps (values ! i)" using assms(2) by (simp add: data)
  then have "data ! i ! 0 = transform1 (fit_column (column 0 values)) (values ! i ! 0)"
    using ps0 assms(3) by (cases ps; cases "values ! i") auto
  then show ?thesis
    by (simp add: inverse_transform_def check_array_def ncols_def broadcast_features_def
        inverse_transform1_transform1)
qed

section \<open>Properties of the sequence models\<close>

lemma zeros_of_shape_replicate:
  "zeros_of_shape l b h (replicate l (replicate b (replicate h 0)))"
proof -
  have rows: "\<forall>r \<in> set (replicate b (replicate h (0::rat))). length r = h \<and> (\<forall>v \<in> set r. v = 0)"
    by auto
  have "\<forall>M \<in> set (replicate l (replicate b (replicate h (0::rat)))).
          length M = b \<and> (\<forall>r \<in> set M. length r = h \<and> (\<forall>v \<in> set r. v = 0))"
    using rows by auto
  then show ?thesis by (simp add: zeros_of_shape_def)
qed

text \<open>
  C7.  For both variants and every batch size, \<open>init_hidden\<close> returns zeros of shape
  \<open>[n_layers, batch_size, hidden_dim]\<close>: one such tensor for the GRU variant, a pair of
  them for the LSTM variant.
\<close>

theorem init_hidden_all_zero:
  "zeros_of_shape (gru_n_layers gnet) batch (gru_hidden_dim gnet) (GRUNet_init_hidden gnet batch)
   \<and> zeros_of_shape (lstm_n_layers lnet) batch (lstm_hidden_dim lnet) (fst (LSTMNet_init_hidden lnet batch))
   \<and> zeros_of_shape (lstm_n_layers lnet) batch (lstm_hidden_dim lnet) (snd (LSTMNet_init_hidden lnet batch))"
proof (intro conjI)
  show "zeros_of_shape (gru_n_layers gnet) batch (gru_hidden_dim gnet) (GRUNet_init_hidden gnet batch)"
    unfolding GRUNet_init_hidden_def by (rule zeros_of_shape_replicate)
next
  have "fst (LSTMNet_init_hidden lnet batch)
        = replicate (lstm_n_layers lnet) (replicate batch (replicate (lstm_hidden_dim lnet) 0))"
    by (simp add: LSTMNet_init_hidden_def)
  then show "zeros_of_shape (lstm_n_layers lnet) batch (lstm_hidden_dim lnet)
               (fst (LSTMNet_init_hidden lnet batch))"
    by (simp only: zeros_of_shape_replicate)
next
  have "snd (LSTMNet_init_hidden lnet batch)
        = replicate (lstm_n_layers lnet) (replicate batch (replicate (lstm_hidden_dim lnet) 0))"
    by (simp add: LSTMNet_init_hidden_def)
  then show "zeros_of_shape (lstm_n_layers lnet) batch (lstm_hidden_dim lnet)
               (snd (LSTMNet_init_hidden lnet batch))"
    by (simp only: zeros_of_shape_replicate)
qed

theorem init_hidden_all_zero_witness:
  "GRUNet_init_hidden \<lparr>gru_hidden_dim = 3, gru_n_layers = 2, gru = (\<lambda>x h. Inr (x, h)),
                        gru_fc = \<lparr>weight = [[1, 1, 1]], bias = [0]\<rparr>\<rparr> 2
     = [[[0, 0, 0], [0, 0, 0]], [[0, 0, 0], [0, 0, 0]]]
   \<and> zeros_of_shape 2 2 3 [[[0, 0, 0], [0, 0, 0]], [[0, 0, 0], [0, 0, 0]]]
   \<and> LSTMNet_init_hidden \<lparr>lstm_hidden_dim = 3, lstm_n_layers = 2, lstm = (\<lambda>x h. Inr (x, h)),
                        lstm_fc = \<lparr>weight = [[1, 1, 1]], bias = [0]\<rparr>\<rparr> 2
     = ([[[0, 0, 0], [0, 0, 0]], [[0, 0, 0], [0, 0, 0]]], [[[0, 0, 0], [0, 0, 0]], [[0, 0, 0], [0, 0, 0]]])"
  using init_hidden_all_zero [of "\<lparr>gru_hidden_dim = 3, gru_n_layers = 2, gru = (\<lambda>x h. Inr (x, h)),
                        gru_fc = \<lparr>weight = [[1, 1, 1]], bias = [0]\<rparr>\<rparr>" 2
        "\<lparr>lstm_hidden_dim = 3, lstm_n_layers = 2, lstm = (\<lambda>x h. Inr (x, h)),
                        lstm_fc = \<lparr>weight = [[1, 1, 1]], bias = [0]\<rparr>\<rparr>"]
  by (simp add: GRUNet_init_hidden_def LSTMNet_init_hidden_def numeral_2_eq_2 numeral_3_eq_3)

lemma last_step_ok:
  assumes "\<forall>seq \<in> set out. seq \<noteq> []"
  shows "last_step out = Inr (map last out)"
  using assms by (auto simp: last_step_def)

lemma Linear_forward_ok:
  assumes "Linear_shape fc n k" and "\<forall>x \<in> set X. length x = n"
  shows "Linear_forward fc X = Inr (map (\<lambda>x. map2 (\<lambda>w b. dot w x + b) (weight fc) (bias fc)) X)"
  using assms by (auto simp: Linear_forward_def Linear_shape_def)

lemma head_output:
  assumes "rnn_output_shape x out n" and "Linear_shape fc n k"
  shows "\<exists>y. (case last_step out of Inl e \<Rightarrow> Inl e
              | Inr final \<Rightarrow> Linear_forward fc (relu final)) = Inr y
           \<and> y = map (\<lambda>seq. map2 (\<lambda>w b. dot w (map (max 0) (last seq)) + b) (weight fc) (bias fc)) out
           \<and> length y = length x \<and> (\<forall>row \<in> set y. length row = k)"
proof -
  from assms(1) have ne: "\<forall>seq \<in> set out. seq \<noteq> []" and len: "length out = length x"
    and hid: "\<forall>seq \<in> set out. length (last seq) = n"
    by (auto simp: rnn_output_shape_def)
  have "\<forall>v \<in> set (relu (map last out)). length v = n"
    using hid by (auto simp: relu_def)
  then have "Linear_forward fc (relu (map last out))
        = Inr (map (\<lambda>v. map2 (\<lambda>w b. dot w v + b) (weight fc) (bias fc)) (relu (map last out)))"
    by (rule Linear_forward_ok [OF assms(2)])
  then show ?thesis
    using assms(2) len by (auto simp: last_step_ok [OF ne] relu_def o_def Linear_shape_def)
qed

text \<open>
  C6 (as amended).  The claim gives the output the shape \<open>(batch_size,)\<close>; the linear layer
  keeps its output dimension, so the output is a matrix of shape
  \<open>[batch_size, output_dim]\<close>, that is \<open>[batch_size, 1]\<close> for the \<open>output_dim = 1\<close> that
  \<open>train\<close> configures: one row of one scalar per window.  What holds, for both variants,
  every batch and every hidden state on which the recurrent layer returns per-step
  outputs of its shape \<open>[batch_size, time, hidden_dim]\<close>: \<open>forward\<close> returns the recurrent
  layer's new hidden state and, for every window, the linear projection of the
  zero-floored final time step.
\<close>

theorem forward_output:
  assumes "gru gnet x h = Inr (out, h')" and "rnn_output_shape x out (gru_hidden_dim gnet)"
    and "Linear_shape (gru_fc gnet) (gru_hidden_dim gnet) output_dim"
    and "lstm lnet x hc = Inr (out2, hc')" and "rnn_output_shape x out2 (lstm_hidden_dim lnet)"
    and "Linear_shape (lstm_fc lnet) (lstm_hidden_dim lnet) output_dim"
  shows "\<exists>y y2. GRUNet_forward gnet x h = Inr (y, h')
           \<and> y = map (\<lambda>seq. map2 (\<lambda>w b. dot w (map (max 0) (last seq)) + b)
                             (weight (gru_fc gnet)) (bias (gru_fc gnet))) out
           \<and> length y = length x \<and> (\<forall>row \<in> set y. length row = output_dim)
           \<and> LSTMNet_forward lnet x hc = Inr (y2, hc')
           \<and> y2 = map (\<lambda>seq. map2 (\<lambda>w b. dot w (map (max 0) (last seq)) + b)
                             (weight (lstm_fc lnet)) (bias (lstm_fc lnet))) out2
           \<and> length y2 = length x \<and> (\<forall>row \<in> set y2. length row = output_dim)"
proof -
  from head_output [OF assms(2,3)] obtain y where
    y: "(case last_step out of Inl e \<Rightarrow> Inl e | Inr final \<Rightarrow> Linear_forward (gru_fc gnet) (relu final)) = Inr y"
       "y = map (\<lambda>seq. map2 (\<lambda>w b. dot w (map (max 0) (last seq)) + b)
                             (weight (gru_fc gnet)) (bias (gru_fc gnet))) out"
       "length y = length x" "\<forall>row \<in> set y. length row = output_dim"
    by blast
  from head_output [OF assms(5,6)] obtain y2 where
    y2: "(case last_step out2 of Inl e \<Rightarrow> Inl e | Inr final \<Rightarrow> Linear_forward (lstm_fc lnet) (relu final)) = Inr y2"
       "y2 = map (\<lambda>seq. map2 (\<lambda>w b. dot w (map (max 0) (last seq)) + b)
                             (weight (lstm_fc lnet)) (bias (lstm_fc lnet))) out2"
       "length y2 = length x" "\<forall>row \<in> set y2. length row = output_dim"
    by blast
  have g: "GRUNet_forward gnet x h = Inr (y, h')"
    using y(1) assms(1) by (auto simp: GRUNet_forward_def split: sum.splits)
  have l: "LSTMNet_forward lnet x hc = Inr (y2, hc')"
    using y2(1) assms(4) by (auto simp: LSTMNet_forward_def split: sum.splits)
  show ?thesis
    using g l y(2-) y2(2-) by blast
qed

theorem forward_output_witness:
  "GRUNet_forward \<lparr>gru_hidden_dim = 2, gru_n_layers = 2, gru = (\<lambda>x h. Inr (x, h)),
                    gru_fc = \<lparr>weight = [[1, 1]], bias = [0]\<rparr>\<rparr>
       [[[0, 0], [1, - 2]], [[0, 0], [3, 4]]] [[[0, 0], [0, 0]], [[0, 0], [0, 0]]]
     = Inr ([[1], [7]], [[[0, 0], [0, 0]], [[0, 0], [0, 0]]])
   \<and> LSTMNet_forward \<lparr>lstm_hidden_dim = 2, lstm_n_layers = 2, lstm = (\<lambda>x h. Inr (x, h)),
                    lstm_fc = \<lparr>weight = [[1, 1]], bias = [0]\<rparr>\<rparr>
       [[[0, 0], [1, - 2]], [[0, 0], [3, 4]]]
       ([[[0, 0], [0, 0]], [[0, 0], [0, 0]]], [[[0, 0], [0, 0]], [[0, 0], [0, 0]]])
     = Inr ([[1], [7]], ([[[0, 0], [0, 0]], [[0, 0], [0, 0]]], [[[0, 0], [0, 0]], [[0, 0], [0, 0]]]))"
  using forward_output [of
      "\<lparr>gru_hidden_dim = 2, gru_n_layers = 2, gru = (\<lambda>x h. Inr (x, h)),
        gru_fc = \<lparr>weight = [[1, 1]], bias = [0]\<rparr>\<rparr>"
      "[[[0, 0], [1, - 2]], [[0, 0], [3, 4]]]" "[[[0, 0], [0, 0]], [[0, 0], [0, 0]]]"
      "[[[0, 0], [1, - 2]], [[0, 0], [3, 4]]]" "[[[0, 0], [0, 0]], [[0, 0], [0, 0]]]"
      1
      "\<lparr>lstm_hidden_dim = 2, lstm_n_layers = 2, lstm = (\<lambda>x h. Inr (x, h)),
        lstm_fc = \<lparr>weight = [[1, 1]], bias = [0]\<rparr>\<rparr>"
      "([[[0, 0], [0, 0]], [[0, 0], [0, 0]]], [[[0, 0], [0, 0]], [[0, 0], [0, 0]]])"
      "[[[0, 0], [1, - 2]], [[0, 0], [3, 4]]]"
      "([[[0, 0], [0, 0]], [[0, 0], [0, 0]]], [[[0, 0], [0, 0]], [[0, 0], [0, 0]]])"]
  by (simp add: rnn_output_shape_def Linear_shape_def dot_def)

text \<open>
  A batch of two windows through a model with \<open>output_dim = 1\<close>: the output is the
  two-by-one matrix \<open>[[1], [7]]\<close>, of shape \<open>[2, 1]\<close> and not \<open>[2]\<close>.
\<close>

theorem forward_shape_counterexample:
  "GRUNet_forward \<lparr>gru_hidden_dim = 2, gru_n_layers = 2, gru = (\<lambda>x h. Inr (x, h)),
                    gru_fc = \<lparr>weight = [[1, 1]], bias = [0]\<rparr>\<rparr>
       [[[0, 0], [1, - 2]], [[0, 0], [3, 4]]] [[[0, 0], [0, 0]], [[0, 0], [0, 0]]]
     = Inr ([[1], [7]], [[[0, 0], [0, 0]], [[0, 0], [0, 0]]])
   \<and> shape2 [[1], [7]] = [2, 1]
   \<and> shape2 [[1], [7]] \<noteq> [2]"
  by (simp add: GRUNet_forward_def last_step_def Linear_forward_def relu_def dot_def shape2_def ncols_def)

section \<open>Properties of the evaluation\<close>

text \<open>
  The error term of the code is a quarter of the symmetric percentage error
  \<open>|prediction - target| / ((target + prediction) / 2)\<close>.  The aggregate is the unweighted
  average of the per-file means, and a per-file mean is the mean of the error terms of
  the file's windows, whenever no denominator is zero and no file is without windows.
\<close>

lemma smape_term_quarter:
  assumes "tgt + out \<noteq> 0"
  shows "smape_term out tgt = Some (\<bar>out - tgt\<bar> / ((tgt + out) / 2) / 4)"
proof -
  define x where "x = \<bar>out - tgt\<bar> / (tgt + out)"
  have a: "\<bar>out - tgt\<bar> / ((tgt + out) / 2) = 2 * x" by (simp add: x_def)
  have b: "x / 2 = 2 * x / 4" by simp
  have "smape_term out tgt = Some (x / 2)"
    using assms by (simp only: smape_term_def x_def if_False)
  then show ?thesis by (simp only: a b)
qed

lemma smape_loop_sum:
  assumes "\<forall>i \<in> set is. \<exists>terms. np_broadcast2 smape_term (outputs ! i) (targets ! i) = Inr terms
                              \<and> np_mean terms = Some (m i)"
  shows "smape_loop outputs targets is (Some s)
         = Inr (Some (s + (\<Sum>i\<leftarrow>is. m i / of_nat (length outputs))))"
  using assms
proof (induction "is" arbitrary: s)
  case Nil
  show ?case by simp
next
  case (Cons i "is")
  from Cons.prems obtain terms where
    t: "np_broadcast2 smape_term (outputs ! i) (targets ! i) = Inr terms" "np_mean terms = Some (m i)"
    by auto
  have "smape_loop outputs targets (i # is) (Some s)
        = smape_loop outputs targets is (Some (s + m i / of_nat (length outputs)))"
    by (simp add: t float_add_def float_div_nat_def)
  also have "\<dots> = Inr (Some (s + m i / of_nat (length outputs)
                            + (\<Sum>i\<leftarrow>is. m i / of_nat (length outputs))))"
    using Cons.prems by (intro Cons.IH) simp
  finally show ?case by (simp add: add.assoc)
qed

lemma smape_is_unweighted_average:
  assumes "\<forall>i < length outputs. \<exists>terms. np_broadcast2 smape_term (outputs ! i) (targets ! i) = Inr terms
                              \<and> np_mean terms = Some (m i)"
  shows "smape_loop outputs targets [0 ..< length outputs] (Some 0)
         = Inr (Some ((\<Sum>i < length outputs. m i) / of_nat (length outputs)))"
proof -
  have "smape_loop outputs targets [0 ..< length outputs] (Some 0)
         = Inr (Some (0 + (\<Sum>i\<leftarrow>[0 ..< length outputs]. m i / of_nat (length outputs))))"
    using assms by (intro smape_loop_sum) simp
  also have "(\<Sum>i\<leftarrow>[0 ..< length outputs]. m i / of_nat (length outputs))
             = (\<Sum>i < length outputs. m i / of_nat (length outputs))"
    by (simp add: interv_sum_list_conv_sum_set_nat atLeast0LessThan)
  also have "\<dots> = (\<Sum>i < length outputs. m i) / of_nat (length outputs)"
    by (simp add: sum_divide_distrib)
  finally show ?thesis by simp
qed

lemma np_mean_smape_terms:
  assumes "length outs = length tgts" and "outs \<noteq> []"
    and "\<forall>(p, t) \<in> set (zip outs tgts). t + p \<noteq> 0"
  shows "\<exists>terms. np_broadcast2 smape_term outs tgts = Inr terms
           \<and> np_mean terms
              = Some ((\<Sum>(p, t)\<leftarrow>zip outs tgts. \<bar>p - t\<bar> / (t + p) / 2) / of_nat (length outs))"
proof -
  have t: "np_broadcast2 smape_term outs tgts = Inr (map2 smape_term outs tgts)"
    using assms(1) by (simp add: np_broadcast2_def)
  have s: "map2 smape_term outs tgts = map (\<lambda>(p, t). Some (\<bar>p - t\<bar> / (t + p) / 2)) (zip outs tgts)"
    using assms(3) by (auto simp: smape_term_def)
  have "np_mean (map (\<lambda>(p, t). Some (\<bar>p - t\<bar> / (t + p) / 2)) (zip outs tgts))
        = Some ((\<Sum>(p, t)\<leftarrow>zip outs tgts. \<bar>p - t\<bar> / (t + p) / 2) / of_nat (length outs))"
    using assms(1,2) by (auto simp: np_mean_def o_def split_def intro!: arg_cong [where f = sum_list])
  with t s show ?thesis by simp
qed

text \<open>
  C1.  One file with one test window, prediction 110 and target 100 after inverse
  scaling: the consumption column ranges over \<open>[0, 200]\<close>, so the label scaler has
  \<open>scale_ = 1/200\<close> and \<open>min_ = 0\<close>; the scaled label is \<open>1/2\<close>; the recurrent layer passes
  its input through and the linear layer adds \<open>1/20\<close> to the last scaled value \<open>1/2\<close>.
  \<open>evaluate\<close> returns the error \<open>10 / 210 / 2 = 1/42\<close>, a quarter of the \<open>10/105\<close> that the
  symmetric percentage error \<open>|prediction - target| / ((target + prediction) / 2)\<close> gives.
\<close>

theorem evaluate_smape_example:
  "evaluate (GRU \<lparr>gru_hidden_dim = 1, gru_n_layers = 2, gru = (\<lambda>x h. Inr (x, h)),
                  gru_fc = \<lparr>weight = [[1]], bias = [1 / 20]\<rparr>\<rparr>)
       [(''AEP_hourly.csv'', [[[1 / 4], [1 / 2]]])] [(''AEP_hourly.csv'', [[1 / 2]])]
       [(''AEP_hourly.csv'', [\<lparr>sc_scale = 1 / 200, sc_min = 0\<rparr>])]
     = Inr ([[110]], [[100]], Some (1 / 42))
   \<and> (1 / 42 :: rat) \<noteq> 10 / 105"
  by (simp add: evaluate_def evaluate_file_def getitem_def GRUNet_forward_def GRUNet_init_hidden_def
      last_step_def Linear_forward_def relu_def dot_def inverse_transform_def check_array_def
      ncols_def broadcast_features_def inverse_transform1_def np_broadcast2_def smape_term_def
      np_mean_def float_add_def float_div_nat_def)

section \<open>The label scalers from preprocessing to evaluation\<close>

lemma update_new_key: "k \<notin> fst ` set al \<Longrightarrow> AList.update k v al = al @ [(k, v)]"
  by (induction al) auto

lemma process_file_dicts:
  assumes "process_file L file values st = Inr st'"
  shows "\<exists>label_sc tx ty. fit (map (\<lambda>v. [v]) (column 0 values)) = Inr label_sc
           \<and> label_scalers st' = AList.update file label_sc (label_scalers st)
           \<and> test_x st' = AList.update file tx (test_x st)
           \<and> test_y st' = AList.update file ty (test_y st)"
proof -
  from assms obtain data inputs labels where
    d: "fit_transform values = Inr data" and w: "windower L data = Inr (inputs, labels)"
    by (auto simp: process_file_def split: sum.splits)
  from assms have "split_file L (ncols data) file [fit_column (column 0 values)] inputs labels st = Inr st'"
    by (simp add: process_file_split [OF d w])
  from split_file_dicts [OF this] show ?thesis
    using fit_label_column [OF fit_transform_nonempty [OF d]] by auto
qed

lemma preprocess_loop_dicts:
  assumes "preprocess_loop L files st0 = Inr st"
    and "distinct (map fst files)"
    and "set (map fst files) \<inter> set (map fst (label_scalers st0)) = {}"
    and "map fst (test_x st0) = map fst (label_scalers st0)"
    and "map fst (test_y st0) = map fst (label_scalers st0)"
  shows "map fst (label_scalers st) = map fst (label_scalers st0) @ map fst (used_files files)
       \<and> map fst (test_x st) = map fst (label_scalers st)
       \<and> map fst (test_y st) = map fst (label_scalers st)
       \<and> (\<forall>(f, v) \<in> set (used_files files).
             \<exists>sc. map_of (label_scalers st) f = Some sc \<and> fit (map (\<lambda>x. [x]) (column 0 v)) = Inr sc)
       \<and> (\<forall>f. f \<notin> set (map fst files) \<longrightarrow> map_of (label_scalers st) f = map_of (label_scalers st0) f)"
  using assms
proof (induction files arbitrary: st0)
  case Nil
  then show ?case by (simp add: used_files_def)
next
  case (Cons fv rest)
  obtain "file" "values" where fv: "fv = (file, values)" by (cases fv)
  have dist: "distinct (map fst rest)" and notin: "file \<notin> set (map fst rest)"
    using Cons.prems(2) by (simp_all add: fv)
  show ?case
  proof (cases "skipped file")
    case True
    then have run: "preprocess_loop L rest st0 = Inr st" using Cons.prems(1) by (simp add: fv)
    have disj: "set (map fst rest) \<inter> set (map fst (label_scalers st0)) = {}"
      using Cons.prems(3) by (auto simp: fv)
    from Cons.IH [OF run dist disj Cons.prems(4,5)] True show ?thesis
      by (auto simp: used_files_def fv)
  next
    case False
    then obtain st1 where p: "process_file L file values st0 = Inr st1"
      and run: "preprocess_loop L rest st1 = Inr st"
      using Cons.prems(1) by (auto simp: fv split: sum.splits)
    from process_file_dicts [OF p] obtain label_sc tx ty where
      fit: "fit (map (\<lambda>x. [x]) (column 0 values)) = Inr label_sc"
      and ls: "label_scalers st1 = AList.update file label_sc (label_scalers st0)"
      and tx: "test_x st1 = AList.update file tx (test_x st0)"
      and ty: "test_y st1 = AList.update file ty (test_y st0)"
      by blast
    have new: "file \<notin> fst ` set (label_scalers st0)"
      using Cons.prems(3) by (auto simp: fv)
    then have new_x: "file \<notin> fst ` set (test_x st0)" and new_y: "file \<notin> fst ` set (test_y st0)"
      using Cons.prems(4,5) by (metis list.set_map)+
    have ls': "label_scalers st1 = label_scalers st0 @ [(file, label_sc)]"
      by (simp add: ls update_new_key [OF new])
    have tx': "test_x st1 = test_x st0 @ [(file, tx)]" by (simp add: tx update_new_key [OF new_x])
    have ty': "test_y st1 = test_y st0 @ [(file, ty)]" by (simp add: ty update_new_key [OF new_y])
    have disj: "set (map fst rest) \<inter> set (map fst (label_scalers st1)) = {}"
      using Cons.prems(3) notin by (auto simp: fv ls')
    have kx: "map fst (test_x st1) = map fst (label_scalers st1)"
      by (simp add: tx' ls' Cons.prems(4))
    have ky: "map fst (test_y st1) = map fst (label_scalers st1)"
      by (simp add: ty' ls' Cons.prems(5))
    note ih = Cons.IH [OF run dist disj kx ky]
    have "map_of (label_scalers st1) file = Some label_sc"
      by (simp add: ls update_conv')
    moreover from ih notin have "map_of (label_scalers st) file = map_of (label_scalers st1) file"
      by blast
    ultimately have here: "map_of (label_scalers st) file = Some label_sc"
      by simp
    have u: "used_files (fv # rest) = (file, values) # used_files rest"
      using False by (simp add: used_files_def fv)
    have c1: "map fst (label_scalers st) = map fst (label_scalers st0) @ map fst (used_files (fv # rest))"
      using ih by (simp add: u ls')
    have c23: "map fst (test_x st) = map fst (label_scalers st)"
      "map fst (test_y st) = map fst (label_scalers st)"
      using ih by simp_all
    have c4: "\<forall>(f, v) \<in> set (used_files (fv # rest)).
                \<exists>sc. map_of (label_scalers st) f = Some sc \<and> fit (map (\<lambda>x. [x]) (column 0 v)) = Inr sc"
      using ih here fit by (simp add: u)
    have c5: "\<forall>f. f \<notin> set (map fst (fv # rest))
                \<longrightarrow> map_of (label_scalers st) f = map_of (label_scalers st0) f"
    proof (intro allI impI)
      fix f assume "f \<notin> set (map fst (fv # rest))"
      then have "f \<noteq> file" and "f \<notin> set (map fst rest)" by (simp_all add: fv)
      with ih have "map_of (label_scalers st) f = map_of (label_scalers st1) f" by blast
      also have "\<dots> = map_of (label_scalers st0) f"
        using \<open>f \<noteq> file\<close> by (simp add: ls update_conv')
      finally show "map_of (label_scalers st) f = map_of (label_scalers st0) f" .
    qed
    from c1 c23 c4 c5 show ?thesis by blast
  qed
qed

lemma evaluate_loop_nth:
  assumes "evaluate_loop m tx ty scalers keys (outs0, tgts0) = Inr (outs, tgts)"
  shows "\<exists>os ts. outs = outs0 @ os \<and> tgts = tgts0 @ ts
           \<and> length os = length keys \<and> length ts = length keys
           \<and> (\<forall>k < length keys. evaluate_file m tx ty scalers (keys ! k) = Inr (os ! k, ts ! k))"
  using assms
proof (induction keys arbitrary: outs0 tgts0)
  case Nil
  then show ?case by simp
next
  case (Cons i keys)
  from Cons.prems obtain out tgt where
    f: "evaluate_file m tx ty scalers i = Inr (out, tgt)"
    and r: "evaluate_loop m tx ty scalers keys (outs0 @ [out], tgts0 @ [tgt]) = Inr (outs, tgts)"
    by (auto split: sum.splits)
  from Cons.IH [OF r] obtain os ts where
    ih: "outs = (outs0 @ [out]) @ os" "tgts = (tgts0 @ [tgt]) @ ts"
      "length os = length keys" "length ts = length keys"
      "\<forall>k < length keys. evaluate_file m tx ty scalers (keys ! k) = Inr (os ! k, ts ! k)"
    by blast
  have "\<forall>k < length (i # keys).
          evaluate_file m tx ty scalers ((i # keys) ! k) = Inr ((out # os) ! k, (tgt # ts) ! k)"
    using f ih(5) by (auto simp: nth_Cons split: nat.splits)
  with ih(1-4) show ?case
    by (intro exI [of _ "out # os"] exI [of _ "tgt # ts"]) simp
qed

lemma evaluate_file_steps:
  assumes "evaluate_file m tx ty scalers i = Inr (out, tgt)"
  shows "\<exists>inp labs sc pred pred' labs'.
           map_of tx i = Some inp \<and> map_of ty i = Some labs \<and> map_of scalers i = Some sc
         \<and> model_predict m inp = Inr pred
         \<and> inverse_transform sc pred = Inr pred' \<and> inverse_transform sc labs = Inr labs'
         \<and> out = concat pred' \<and> tgt = concat labs'"
  using assms
  by (auto simp: evaluate_file_def getitem_def split: sum.splits option.splits)

lemma evaluate_outputs:
  assumes "evaluate m tx ty scalers = Inr (outputs, targets, sMAPE)"
  shows "length outputs = length tx \<and> length targets = length tx
       \<and> (\<forall>k < length tx. evaluate_file m tx ty scalers (fst (tx ! k)) = Inr (outputs ! k, targets ! k))"
proof -
  from assms have "evaluate_loop m tx ty scalers (map fst tx) ([], []) = Inr (outputs, targets)"
    by (auto simp: evaluate_def split: sum.splits)
  from evaluate_loop_nth [OF this] show ?thesis by auto
qed

lemma test_portion_small: "n \<le> 9 \<Longrightarrow> test_portion n = 0"
  by (simp add: test_portion_eq)

lemma example_first_file: "process_file 2 ''a.csv'' [[10], [20], [30], [40]] init_state
  = Inr \<lparr>label_scalers = [(''a.csv'', [\<lparr>sc_scale = 1 / 30, sc_min = - (1 / 3)\<rparr>])],
         train_x = [], train_y = [],
         test_x = [(''a.csv'', [[[0], [1 / 3]], [[1 / 3], [2 / 3]]])],
         test_y = [(''a.csv'', [[2 / 3], [1]])]\<rparr>"
proof -
  have fc: "fit_column [10, 20, 30, 40] = \<lparr>sc_scale = 1 / 30, sc_min = - (1 / 3)\<rparr>"
    by (simp add: fit_column_def handle_zeros_in_scale_def Let_def)
  have ft: "fit_transform [[10], [20], [30], [40]] = Inr [[0], [1 / 3], [2 / 3], [1]]"
    using fit_transform_single_column [of "[10, 20, 30, 40]"] by (simp add: fc transform1_def)
  have w: "windower 2 [[0], [1 / 3], [2 / 3], [1]]
           = Inr ([[[0], [1 / 3]], [[1 / 3], [2 / 3]]], [[2 / 3], [1]])"
    by (subst windower_ok) (simp_all add: slice_def upt_conv_Cons)
  show ?thesis
    by (simp add: process_file_split [OF ft w] column_def fc split_file_def Let_def
        test_portion_small slice_zero init_state_def)
qed

lemma example_second_file: "process_file 2 ''b.csv'' [[4], [6], [8]]
     \<lparr>label_scalers = [(''a.csv'', [\<lparr>sc_scale = 1 / 30, sc_min = - (1 / 3)\<rparr>])],
         train_x = [], train_y = [],
         test_x = [(''a.csv'', [[[0], [1 / 3]], [[1 / 3], [2 / 3]]])],
         test_y = [(''a.csv'', [[2 / 3], [1]])]\<rparr>
  = Inr \<lparr>label_scalers = [(''a.csv'', [\<lparr>sc_scale = 1 / 30, sc_min = - (1 / 3)\<rparr>]),
                           (''b.csv'', [\<lparr>sc_scale = 1 / 4, sc_min = - 1\<rparr>])],
         train_x = [], train_y = [],
         test_x = [(''a.csv'', [[[0], [1 / 3]], [[1 / 3], [2 / 3]]]), (''b.csv'', [[[0], [1 / 2]]])],
         test_y = [(''a.csv'', [[2 / 3], [1]]), (''b.csv'', [[1]])]\<rparr>"
proof -
  have fc: "fit_column [4, 6, 8] = \<lparr>sc_scale = 1 / 4, sc_min = - 1\<rparr>"
    by (simp add: fit_column_def handle_zeros_in_scale_def Let_def)
  have ft: "fit_transform [[4], [6], [8]] = Inr [[0], [1 / 2], [1]]"
    using fit_transform_single_column [of "[4, 6, 8]"] by (simp add: fc transform1_def)
  have w: "windower 2 [[0], [1 / 2], [1]] = Inr ([[[0], [1 / 2]]], [[1]])"
    by (subst windower_ok) (simp_all add: slice_def upt_conv_Cons)
  show ?thesis
    by (simp add: process_file_split [OF ft w] column_def fc split_file_def Let_def
        test_portion_small slice_zero)
qed

lemma example_skipped: "\<not> skipped ''a.csv''" "skipped ''notes.txt''" "\<not> skipped ''b.csv''"
  by (simp_all add: skipped_def slice_from_def)

lemma example_preprocess:
  "preprocess_loop 2
       [(''a.csv'', [[10], [20], [30], [40]]), (''notes.txt'', [[1]]), (''b.csv'', [[4], [6], [8]])]
       init_state
   = Inr \<lparr>label_scalers = [(''a.csv'', [\<lparr>sc_scale = 1 / 30, sc_min = - (1 / 3)\<rparr>]),
                           (''b.csv'', [\<lparr>sc_scale = 1 / 4, sc_min = - 1\<rparr>])],
         train_x = [], train_y = [],
         test_x = [(''a.csv'', [[[0], [1 / 3]], [[1 / 3], [2 / 3]]]), (''b.csv'', [[[0], [1 / 2]]])],
         test_y = [(''a.csv'', [[2 / 3], [1]]), (''b.csv'', [[1]])]\<rparr>"
  by (simp add: example_skipped example_first_file example_second_file)

lemma example_evaluate:
  "evaluate (GRU \<lparr>gru_hidden_dim = 1, gru_n_layers = 2, gru = (\<lambda>x h. Inr (x, h)),
                  gru_fc = \<lparr>weight = [[1]], bias = [0]\<rparr>\<rparr>)
       [(''a.csv'', [[[0], [1 / 3]], [[1 / 3], [2 / 3]]]), (''b.csv'', [[[0], [1 / 2]]])]
       [(''a.csv'', [[2 / 3], [1]]), (''b.csv'', [[1]])]
       [(''a.csv'', [\<lparr>sc_scale = 1 / 30, sc_min = - (1 / 3)\<rparr>]),
        (''b.csv'', [\<lparr>sc_scale = 1 / 4, sc_min = - 1\<rparr>])]
   = Inr ([[20, 30], [6]], [[30, 40], [8]], Some (11 / 140))"
  by (simp add: evaluate_def evaluate_file_def getitem_def GRUNet_forward_def GRUNet_init_hidden_def
      last_step_def Linear_forward_def relu_def dot_def inverse_transform_def check_array_def
      ncols_def broadcast_features_def inverse_transform1_def np_broadcast2_def smape_term_def
      np_mean_def float_add_def float_div_nat_def upt_conv_Cons)

lemma example_used_files:
  "used_files [(''a.csv'', [[10], [20], [30], [40]]), (''notes.txt'', [[1]]), (''b.csv'', [[4], [6], [8]])]
   = [(''a.csv'', [[10], [20], [30], [40]]), (''b.csv'', [[4], [6], [8]])]"
  by (simp add: used_files_def example_skipped)

text \<open>
  C5.  Let the preprocessing of a directory listing with distinct file names succeed, and
  let \<open>evaluate\<close> succeed on the test pool and the label-scaler dictionary it built.  The
  dictionary has exactly one entry per processed file.  For the \<open>k\<close>-th processed file,
  the scaler stored under its name is the one fit on column 0 of that file's own table,
  and the \<open>k\<close>-th output and target sequences are the model's predictions on that file's
  test windows and that file's test labels, both inverse-scaled with this scaler.
  \<open>evaluate\<close> takes the dictionary as an argument and returns no dictionary: it only reads it.
\<close>

theorem evaluate_uses_own_label_scaler:
  assumes "preprocess_loop L files init_state = Inr st"
    and "distinct (map fst files)"
    and "evaluate m (test_x st) (test_y st) (label_scalers st) = Inr (outputs, targets, sMAPE)"
    and "k < length (used_files files)" and "used_files files ! k = (file, values)"
  shows "\<exists>label_sc inp labs pred pred' labs'.
           map fst (label_scalers st) = map fst (used_files files)
         \<and> fit (map (\<lambda>v. [v]) (column 0 values)) = Inr label_sc
         \<and> map_of (label_scalers st) file = Some label_sc
         \<and> map_of (test_x st) file = Some inp \<and> map_of (test_y st) file = Some labs
         \<and> model_predict m inp = Inr pred
         \<and> inverse_transform label_sc pred = Inr pred'
         \<and> inverse_transform label_sc labs = Inr labs'
         \<and> outputs ! k = concat pred' \<and> targets ! k = concat labs'"
proof -
  have inv: "map fst (label_scalers st) = map fst (used_files files)"
    "map fst (test_x st) = map fst (label_scalers st)"
    "\<forall>(f, v) \<in> set (used_files files).
        \<exists>sc. map_of (label_scalers st) f = Some sc \<and> fit (map (\<lambda>x. [x]) (column 0 v)) = Inr sc"
    using preprocess_loop_dicts [OF assms(1,2)] by (simp_all add: init_state_def)
  have "(file, values) \<in> set (used_files files)"
    using assms(4,5) by (metis nth_mem)
  with inv(3) obtain label_sc where
    sc: "map_of (label_scalers st) file = Some label_sc"
    and fit: "fit (map (\<lambda>v. [v]) (column 0 values)) = Inr label_sc"
    by blast
  have len: "length (test_x st) = length (used_files files)"
    using inv(1,2) by (metis length_map)
  have key: "fst (test_x st ! k) = file"
  proof -
    have "map fst (test_x st) ! k = map fst (used_files files) ! k" using inv(1,2) by simp
    then show ?thesis using assms(4,5) len by simp
  qed
  from evaluate_outputs [OF assms(3)] assms(4) len key
  have "evaluate_file m (test_x st) (test_y st) (label_scalers st) file = Inr (outputs ! k, targets ! k)"
    by auto
  from evaluate_file_steps [OF this] sc fit inv(1) show ?thesis
    by auto
qed

theorem evaluate_uses_own_label_scaler_witness:
  "fit (map (\<lambda>v. [v]) (column 0 [[4], [6], [8]])) = Inr [\<lparr>sc_scale = 1 / 4, sc_min = - 1\<rparr>]
   \<and> (\<exists>pred pred' labs'.
         model_predict (GRU \<lparr>gru_hidden_dim = 1, gru_n_layers = 2, gru = (\<lambda>x h. Inr (x, h)),
                              gru_fc = \<lparr>weight = [[1]], bias = [0]\<rparr>\<rparr>) [[[0], [1 / 2]]] = Inr pred
       \<and> inverse_transform [\<lparr>sc_scale = 1 / 4, sc_min = - 1\<rparr>] pred = Inr pred'
       \<and> inverse_transform [\<lparr>sc_scale = 1 / 4, sc_min = - 1\<rparr>] [[1]] = Inr labs'
       \<and> [6] = concat pred' \<and> [8] = concat labs')"
proof -
  let ?files = "[(''a.csv'', [[10], [20], [30], [40]]), (''notes.txt'', [[1]]),
                 (''b.csv'', [[4], [6], [8 :: rat]])]"
  have d: "distinct (map fst ?files)" by simp
  have k: "1 < length (used_files ?files)" by (simp add: example_used_files)
  have u: "used_files ?files ! 1 = (''b.csv'', [[4], [6], [8]])" by (simp add: example_used_files)
  from evaluate_uses_own_label_scaler [OF example_preprocess d _ k u, simplified, OF example_evaluate]
  show ?thesis by simp
qed

end
